theory Spec2Isabelle
  imports Complex_Main
begin

section \<open>Python strings and dictionaries\<close>

text \<open>
  A Python \<open>str\<close> is modelled as a \<open>string\<close>: every \<open>char\<close> stands for one code
  point below 256. A \<open>dict\<close> is an association list in insertion order whose keys are
  distinct; \<open>dict_set\<close> is the assignment \<open>d[k] = v\<close> (an existing key keeps its place,
  a new key goes last) and \<open>dict_get\<close> is \<open>d.get(k, default)\<close>.
\<close>

datatype error =
  AttributeError | TypeError | ValueError | KeyError | OverflowError | OSError

type_synonym 'v dict = "(string \<times> 'v) list"

fun dict_set :: "'v dict \<Rightarrow> string \<Rightarrow> 'v \<Rightarrow> 'v dict" where
  "dict_set [] k v = [(k, v)]"
| "dict_set ((k', v') # d) k v =
     (if k' = k then (k, v) # d else (k', v') # dict_set d k v)"

definition dict_get :: "'v dict \<Rightarrow> string \<Rightarrow> 'v \<Rightarrow> 'v" where
  "dict_get d k dflt = (case map_of d k of None \<Rightarrow> dflt | Some v \<Rightarrow> v)"

definition dict_contains :: "'v dict \<Rightarrow> string \<Rightarrow> bool" where
  "dict_contains d k = (k \<in> set (map fst d))"

text \<open>
  \<open>str.strip()\<close> removes the leading and trailing characters for which \<open>str.isspace\<close>
  holds: below 256 these are TAB, LF, VT, FF, CR, the separators 0x1C to 0x1F, the space,
  NEL (0x85) and the no-break space (0xA0).
\<close>

definition isspace :: "char \<Rightarrow> bool" where
  "isspace c = (c \<in> set [CHR 0x09, CHR 0x0A, CHR 0x0B, CHR 0x0C, CHR 0x0D,
                          CHR 0x1C, CHR 0x1D, CHR 0x1E, CHR 0x1F, CHR 0x20,
                          CHR 0x85, CHR 0xA0])"

definition lstrip :: "string \<Rightarrow> string" where
  "lstrip s = dropWhile isspace s"

definition rstrip :: "string \<Rightarrow> string" where
  "rstrip s = rev (dropWhile isspace (rev s))"

definition strip :: "string \<Rightarrow> string" where
  "strip s = rstrip (lstrip s)"

text \<open>
  \<open>s.split(sep, n)\<close> for a one-character separator: at most \<open>n\<close> cuts, from the left.
  \<open>s.split(sep)\<close> has no limit; a string of length \<open>l\<close> has at most \<open>l\<close> separators.
\<close>

fun split_n :: "nat \<Rightarrow> char \<Rightarrow> string \<Rightarrow> string list" where
  "split_n 0 sep s = [s]"
| "split_n (Suc n) sep s =
     (if sep \<in> set s
      then takeWhile (\<lambda>c. c \<noteq> sep) s # split_n n sep (drop 1 (dropWhile (\<lambda>c. c \<noteq> sep) s))
      else [s])"

definition str_split :: "char \<Rightarrow> string \<Rightarrow> string list" where
  "str_split sep s = split_n (length s) sep s"

definition startswith :: "string \<Rightarrow> string \<Rightarrow> bool" where
  "startswith s p = (take (length p) s = p)"

section \<open>The resource-attribute parser\<close>

text \<open>
  \<^verbatim>\<open>
  def parse_resource_attributes(raw: str) -> dict:
      attrs = {}
      if not raw:
          return attrs
      for part in raw.split(","):
          part = part.strip()
          if not part or "=" not in part:
              continue
          key, value = part.split("=", 1)
          attrs[key.strip()] = value.strip()
      return attrs
  \<close>
  The loop is \<open>parse_loop\<close>, with the dictionary built so far as its state. The tuple
  assignment \<open>key, value = ...\<close> raises \<open>ValueError\<close> unless the list has exactly two
  elements; the model keeps that branch.
\<close>

fun parse_loop :: "string dict \<Rightarrow> string list \<Rightarrow> error + string dict" where
  "parse_loop attrs [] = Inr attrs"
| "parse_loop attrs (part # parts) =
     (let part' = strip part in
      if part' = [] \<or> CHR ''='' \<notin> set part' then parse_loop attrs parts
      else (case split_n 1 (CHR ''='') part' of
              [key, val] \<Rightarrow> parse_loop (dict_set attrs (strip key) (strip val)) parts
            | _ \<Rightarrow> Inl ValueError))"

definition parse_resource_attributes :: "string \<Rightarrow> error + string dict" where
  "parse_resource_attributes raw =
     (if raw = [] then Inr [] else parse_loop [] (str_split (CHR '','') raw))"

text \<open>The frontend service carries its own copy of the parser.\<close>

fun frontend_parse_loop :: "string dict \<Rightarrow> string list \<Rightarrow> error + string dict" where
  "frontend_parse_loop attrs [] = Inr attrs"
| "frontend_parse_loop attrs (part # parts) =
     (let part' = strip part in
      if part' = [] \<or> CHR ''='' \<notin> set part' then frontend_parse_loop attrs parts
      else (case split_n 1 (CHR ''='') part' of
              [key, val] \<Rightarrow>
                frontend_parse_loop (dict_set attrs (strip key) (strip val)) parts
            | _ \<Rightarrow> Inl ValueError))"

definition frontend_parse_resource_attributes :: "string \<Rightarrow> error + string dict" where
  "frontend_parse_resource_attributes raw =
     (if raw = [] then Inr [] else frontend_parse_loop [] (str_split (CHR '','') raw))"

text \<open>
  The parser as the specification words it: split on the comma, trim every segment, drop
  the empty segments and those without an equals sign, cut each remaining segment at its
  first equals sign, trim both sides, and let a later pair overwrite an earlier one.
\<close>

definition spec_segments :: "string \<Rightarrow> string list" where
  "spec_segments raw =
     filter (\<lambda>seg. seg \<noteq> [] \<and> CHR ''='' \<in> set seg) (map strip (str_split (CHR '','') raw))"

definition spec_pair :: "string \<Rightarrow> string \<times> string" where
  "spec_pair seg =
     (strip (takeWhile (\<lambda>c. c \<noteq> CHR ''='') seg),
      strip (drop 1 (dropWhile (\<lambda>c. c \<noteq> CHR ''='') seg)))"

definition spec_parse :: "string \<Rightarrow> (string \<rightharpoonup> string)" where
  "spec_parse raw =
     foldl (\<lambda>m (k, v). m(k \<mapsto> v)) Map.empty (map spec_pair (spec_segments raw))"

section \<open>Python values, the environment and the platform\<close>

text \<open>
  The values a log record's attributes hold. \<open>PObj t s j\<close> is any object other than the
  scalars before it (a tuple of arguments, exception information, ...), given by the three
  things the formatter can observe of it: its truth value \<open>t\<close>, its \<open>str()\<close> text \<open>s\<close>
  and its JSON encoding \<open>j\<close>, \<open>None\<close> when \<open>json.dumps\<close> has no encoder for it.
  A float is carried as the real number it denotes; the infinities and NaN are left out.
\<close>

datatype pyval =
    PNone
  | PBool bool
  | PInt int
  | PFloat real
  | PStr string
  | PObj bool string "string option"

record struct_time =
  tm_year :: int
  tm_mon :: int
  tm_mday :: int
  tm_hour :: int
  tm_min :: int
  tm_sec :: int
  tm_wday :: int
  tm_yday :: int
  tm_isdst :: int

text \<open>
  What the interpreter and the C library supply and this development does not define:
  the \<open>repr\<close> of a float and \<open>float()\<close> of a numeral, the operator \<open>%\<close> on a
  format string, the limit \<open>sys.get_int_max_str_digits()\<close> on the digits of an \<open>int\<close>
  that is converted to or from a string (4300 by default since Python 3.11, 0 for no
  limit), the clock, \<open>time.localtime\<close> on a whole number of seconds (it raises
  \<open>OverflowError\<close> or \<open>OSError\<close> for a timestamp beyond the platform's range), and
  \<open>time.strftime\<close>.
\<close>

record platform =
  float_repr :: "real \<Rightarrow> string"
  parse_float :: "string \<Rightarrow> real"
  percent_format :: "string \<Rightarrow> pyval \<Rightarrow> error + string"
  int_max_str_digits :: nat
  clock :: int
  localtime :: "int \<Rightarrow> error + struct_time"
  strftime :: "string \<Rightarrow> struct_time \<Rightarrow> string"

type_synonym environ = "string \<rightharpoonup> string"

definition getenv :: "environ \<Rightarrow> string \<Rightarrow> string \<Rightarrow> string" where
  "getenv env k dflt = (case env k of None \<Rightarrow> dflt | Some v \<Rightarrow> v)"

fun truthy :: "pyval \<Rightarrow> bool" where
  "truthy PNone = False"
| "truthy (PBool b) = b"
| "truthy (PInt i) = (i \<noteq> 0)"
| "truthy (PFloat r) = (r \<noteq> 0)"
| "truthy (PStr s) = (s \<noteq> [])"
| "truthy (PObj t s j) = t"

definition py_or :: "pyval \<Rightarrow> pyval \<Rightarrow> pyval" where
  "py_or a b = (if truthy a then a else b)"

text \<open>
  Decimal numerals, as \<open>str\<close> and \<open>json.dumps\<close> print an \<open>int\<close>. The conversion
  raises \<open>ValueError\<close> when the number has more digits than the platform's limit.
\<close>

definition digit_char :: "nat \<Rightarrow> char" where
  "digit_char n = ''0123456789'' ! n"

function str_nat :: "nat \<Rightarrow> string" where
  "str_nat n = (if n < 10 then [digit_char n] else str_nat (n div 10) @ [digit_char (n mod 10)])"
  by pat_completeness auto
termination
  by (relation "measure (\<lambda>n. n)") auto

declare str_nat.simps [simp del]

definition str_int :: "int \<Rightarrow> string" where
  "str_int i = (if i < 0 then CHR ''-'' # str_nat (nat (- i)) else str_nat (nat i))"

definition digits_fit :: "platform \<Rightarrow> nat \<Rightarrow> bool" where
  "digits_fit py n = (int_max_str_digits py = 0 \<or> n \<le> int_max_str_digits py)"

definition int_str :: "platform \<Rightarrow> int \<Rightarrow> error + string" where
  "int_str py i =
     (if digits_fit py (length (str_nat (nat \<bar>i\<bar>))) then Inr (str_int i)
      else Inl ValueError)"

text \<open>\<open>str(v)\<close>, which an f-string applies to the value it formats.\<close>

fun py_str :: "platform \<Rightarrow> pyval \<Rightarrow> error + string" where
  "py_str py PNone = Inr ''None''"
| "py_str py (PBool b) = Inr (if b then ''True'' else ''False'')"
| "py_str py (PInt i) = int_str py i"
| "py_str py (PFloat r) = Inr (float_repr py r)"
| "py_str py (PStr s) = Inr s"
| "py_str py (PObj t s j) = Inr s"

section \<open>Log records\<close>

text \<open>
  A \<open>logging.LogRecord\<close> is its \<open>__dict__\<close>: the attributes the logging library sets
  (\<open>name\<close>, \<open>msg\<close>, \<open>args\<close>, \<open>levelname\<close>, \<open>created\<close>, ...), those the tracing
  instrumentation adds (\<open>otelTraceID\<close>, \<open>otelSpanID\<close>, \<open>otelServiceName\<close>, ...) and
  those of the call's \<open>extra\<close> mapping, in the order they were set. \<open>record.x\<close> raises
  \<open>AttributeError\<close> when the attribute is missing; \<open>getattr(record, x, default)\<close> is
  \<open>dict_get\<close>.
\<close>

type_synonym LogRecord = "pyval dict"

text \<open>
  Both modules call \<open>LoggingInstrumentor().instrument(set_logging_format=True)\<close> at
  import; from then on every record is made by the factory that the instrumentation
  library installs:
  \<^verbatim>\<open>
      record = old_factory(*args, **kwargs)
      record.otelSpanID = "0"
      record.otelTraceID = "0"
      record.otelTraceSampled = False
      ...
      record.otelServiceName = service_name
      span = get_current_span()
      if span != INVALID_SPAN:
          ctx = span.get_span_context()
          if ctx != INVALID_SPAN_CONTEXT:
              record.otelSpanID = format(ctx.span_id, "016x")
              record.otelTraceID = format(ctx.trace_id, "032x")
              record.otelTraceSampled = ctx.trace_flags.sampled
      return record
  \<close>
  The active span, if there is one, is given by its trace id and span id in hexadecimal
  and its sampled flag; \<open>service_name\<close> is the resource's service name, or the empty
  string.
\<close>

definition record_factory ::
  "(string \<times> string \<times> bool) option \<Rightarrow> string \<Rightarrow> LogRecord \<Rightarrow> LogRecord" where
  "record_factory active service_name record =
     (let r1 = dict_set record ''otelSpanID'' (PStr ''0'');
          r2 = dict_set r1 ''otelTraceID'' (PStr ''0'');
          r3 = dict_set r2 ''otelTraceSampled'' (PBool False);
          r4 = dict_set r3 ''otelServiceName'' (PStr service_name)
      in case active of
           None \<Rightarrow> r4
         | Some (trace_id, span_id, sampled) \<Rightarrow>
             dict_set (dict_set (dict_set r4 ''otelSpanID'' (PStr span_id))
               ''otelTraceID'' (PStr trace_id)) ''otelTraceSampled'' (PBool sampled))"

text \<open>
  \<open>Logger.makeRecord\<close> then adds the attributes of the call's \<open>extra\<close> mapping, the
  only ones the caller supplies:
  \<^verbatim>\<open>
      for key in extra:
          if (key in ["message", "asctime"]) or (key in rv.__dict__):
              raise KeyError("Attempt to overwrite %r in LogRecord" % key)
          rv.__dict__[key] = extra[key]
  \<close>
\<close>

fun makeRecord_extra :: "LogRecord \<Rightarrow> pyval dict \<Rightarrow> error + LogRecord" where
  "makeRecord_extra rv [] = Inr rv"
| "makeRecord_extra rv ((key, val) # extra) =
     (if key \<in> set [''message'', ''asctime''] \<or> dict_contains rv key then Inl KeyError
      else makeRecord_extra (dict_set rv key val) extra)"

definition attr :: "LogRecord \<Rightarrow> string \<Rightarrow> error + pyval" where
  "attr record k = (case map_of record k of None \<Rightarrow> Inl AttributeError | Some v \<Rightarrow> Inr v)"

text \<open>
  \<open>record.getMessage()\<close>, the method of the logging library:
  \<^verbatim>\<open>
      msg = str(self.msg)
      if self.args:
          msg = msg % self.args
      return msg
  \<close>
  An attribute of the record named \<open>getMessage\<close> hides the method; the values of this
  model are not callable, so the call raises \<open>TypeError\<close>.
\<close>

definition getMessage :: "platform \<Rightarrow> LogRecord \<Rightarrow> error + string" where
  "getMessage py record =
     (if dict_contains record ''getMessage'' then Inl TypeError
      else
        (case attr record ''msg'' of
           Inl e \<Rightarrow> Inl e
         | Inr msg \<Rightarrow>
             (case py_str py msg of
                Inl e \<Rightarrow> Inl e
              | Inr s \<Rightarrow>
                  (case attr record ''args'' of
                     Inl e \<Rightarrow> Inl e
                   | Inr args \<Rightarrow>
                       if truthy args then percent_format py s args else Inr s))))"

text \<open>
  \<open>Formatter.formatTime(record, datefmt)\<close> of the logging library, for a non-empty
  \<open>datefmt\<close> (the formatter passes a literal one):
  \<^verbatim>\<open>
      ct = self.converter(record.created)      # time.localtime
      if datefmt:
          s = time.strftime(datefmt, ct)
      ...
      return s
  \<close>
  \<open>time.localtime\<close> rounds a float down to whole seconds, reads the clock for \<open>None\<close>,
  raises \<open>TypeError\<close> for a value that is not a number and, as the platform decides,
  \<open>OverflowError\<close> or \<open>OSError\<close> for a timestamp out of range.
\<close>

fun whole_seconds :: "platform \<Rightarrow> pyval \<Rightarrow> error + int" where
  "whole_seconds py PNone = Inr (clock py)"
| "whole_seconds py (PBool b) = Inr (if b then 1 else 0)"
| "whole_seconds py (PInt i) = Inr i"
| "whole_seconds py (PFloat r) = Inr \<lfloor>r\<rfloor>"
| "whole_seconds py (PStr s) = Inl TypeError"
| "whole_seconds py (PObj t s j) = Inl TypeError"

definition formatTime :: "platform \<Rightarrow> LogRecord \<Rightarrow> string \<Rightarrow> error + string" where
  "formatTime py record datefmt =
     (case attr record ''created'' of
        Inl e \<Rightarrow> Inl e
      | Inr created \<Rightarrow>
          (case whole_seconds py created of
             Inl e \<Rightarrow> Inl e
           | Inr secs \<Rightarrow>
               (case localtime py secs of
                  Inl e \<Rightarrow> Inl e
                | Inr ct \<Rightarrow> Inr (strftime py datefmt ct))))"

section \<open>The JSON formatter\<close>

text \<open>
  \<^verbatim>\<open>
  def format(self, record):
      service_name = getattr(record, "otelServiceName", "") or os.getenv("OTEL_SERVICE_NAME", "backend")
      payload = {
          "@timestamp": self.formatTime(record, datefmt="%Y-%m-%dT%H:%M:%S.%fZ"),
          "log.level": record.levelname,
          "message": record.getMessage(),
          "logger.name": record.name,
          "trace.id": getattr(record, "otelTraceID", ""),
          "span.id": getattr(record, "otelSpanID", ""),
          "service.name": service_name,
          "service.version": RESOURCE_ATTRS.get("service.version", ""),
          "service.namespace": RESOURCE_ATTRS.get("service.namespace", ""),
          "deployment.environment": RESOURCE_ATTRS.get("deployment.environment", ""),
          "host.name": os.getenv("HOSTNAME", ""),
          "event.dataset": f"{service_name}.log",
      }
      for key, value in record.__dict__.items():
          if key in payload or key.startswith("otel"):
              continue
          if key in ("args", "msg", ..., "process"):
              continue
          payload[key] = value
      return json.dumps(payload)
  \<close>
  The backend and the frontend formatter differ in the default service name only, the
  parameter \<open>default_name\<close>. \<open>RESOURCE_ATTRS\<close> is the module's global, parsed once at
  import. \<open>fixed_fields\<close> is the dictionary literal, its items evaluated in order (the
  f-string last), \<open>add_extras\<close> the loop, \<open>format_payload\<close> the dictionary handed to
  \<open>json.dumps\<close>.
\<close>

definition DATEFMT :: string where
  "DATEFMT = ''%Y-%m-%dT%H:%M:%S.%fZ''"

definition FIXED_KEYS :: "string list" where
  "FIXED_KEYS = [''@timestamp'', ''log.level'', ''message'', ''logger.name'', ''trace.id'',
     ''span.id'', ''service.name'', ''service.version'', ''service.namespace'',
     ''deployment.environment'', ''host.name'', ''event.dataset'']"

definition DENYLIST :: "string list" where
  "DENYLIST = [''args'', ''msg'', ''levelname'', ''levelno'', ''pathname'', ''filename'',
     ''module'', ''exc_info'', ''exc_text'', ''stack_info'', ''lineno'', ''funcName'',
     ''created'', ''msecs'', ''relativeCreated'', ''thread'', ''threadName'',
     ''processName'', ''process'']"

definition service_name_of :: "string \<Rightarrow> environ \<Rightarrow> LogRecord \<Rightarrow> pyval" where
  "service_name_of default_name env record =
     py_or (dict_get record ''otelServiceName'' (PStr []))
           (PStr (getenv env ''OTEL_SERVICE_NAME'' default_name))"

definition fixed_fields ::
  "string \<Rightarrow> platform \<Rightarrow> environ \<Rightarrow> string dict \<Rightarrow> LogRecord \<Rightarrow> error + pyval dict" where
  "fixed_fields default_name py env RESOURCE_ATTRS record =
     (let service_name = service_name_of default_name env record in
      case formatTime py record DATEFMT of
        Inl e \<Rightarrow> Inl e
      | Inr timestamp \<Rightarrow>
      (case attr record ''levelname'' of
        Inl e \<Rightarrow> Inl e
      | Inr levelname \<Rightarrow>
      (case getMessage py record of
        Inl e \<Rightarrow> Inl e
      | Inr message \<Rightarrow>
      (case attr record ''name'' of
        Inl e \<Rightarrow> Inl e
      | Inr name \<Rightarrow>
      (case py_str py service_name of
        Inl e \<Rightarrow> Inl e
      | Inr service_text \<Rightarrow>
          Inr [(''@timestamp'', PStr timestamp),
               (''log.level'', levelname),
               (''message'', PStr message),
               (''logger.name'', name),
               (''trace.id'', dict_get record ''otelTraceID'' (PStr [])),
               (''span.id'', dict_get record ''otelSpanID'' (PStr [])),
               (''service.name'', service_name),
               (''service.version'', PStr (dict_get RESOURCE_ATTRS ''service.version'' [])),
               (''service.namespace'', PStr (dict_get RESOURCE_ATTRS ''service.namespace'' [])),
               (''deployment.environment'',
                  PStr (dict_get RESOURCE_ATTRS ''deployment.environment'' [])),
               (''host.name'', PStr (getenv env ''HOSTNAME'' [])),
               (''event.dataset'', PStr (service_text @ ''.log''))])))))"

fun add_extras :: "pyval dict \<Rightarrow> (string \<times> pyval) list \<Rightarrow> pyval dict" where
  "add_extras payload [] = payload"
| "add_extras payload ((key, val) # items) =
     (if dict_contains payload key \<or> startswith key ''otel'' then add_extras payload items
      else if key \<in> set DENYLIST then add_extras payload items
      else add_extras (dict_set payload key val) items)"

definition format_payload ::
  "string \<Rightarrow> platform \<Rightarrow> environ \<Rightarrow> string dict \<Rightarrow> LogRecord \<Rightarrow> error + pyval dict" where
  "format_payload default_name py env RESOURCE_ATTRS record =
     (case fixed_fields default_name py env RESOURCE_ATTRS record of
        Inl e \<Rightarrow> Inl e
      | Inr payload \<Rightarrow> Inr (add_extras payload record))"


section \<open>JSON text\<close>

text \<open>
  \<open>json.dumps(payload)\<close> with its defaults (\<open>ensure_ascii\<close>, the separators
  \<open>", "\<close> and \<open>": "\<close>), for a dictionary with string keys. In a string the quote, the
  backslash and the control characters with a short escape are written with it, the
  printable ASCII characters as they are, every other character as \<open>\u00XX\<close>. An
  \<open>int\<close> is its decimal numeral (\<open>ValueError\<close> beyond the platform's digit limit), a
  float its \<open>repr\<close>; an object without an encoder raises \<open>TypeError\<close>.
\<close>

definition hex_char :: "nat \<Rightarrow> char" where
  "hex_char n = ''0123456789abcdef'' ! n"

definition json_escape_char :: "char \<Rightarrow> string" where
  "json_escape_char c =
     (if c = CHR 0x22 then [CHR 0x5C, CHR 0x22]
      else if c = CHR 0x5C then [CHR 0x5C, CHR 0x5C]
      else if c = CHR 0x0A then [CHR 0x5C, CHR ''n'']
      else if c = CHR 0x0D then [CHR 0x5C, CHR ''r'']
      else if c = CHR 0x09 then [CHR 0x5C, CHR ''t'']
      else if c = CHR 0x08 then [CHR 0x5C, CHR ''b'']
      else if c = CHR 0x0C then [CHR 0x5C, CHR ''f'']
      else if 32 \<le> (of_char c :: nat) \<and> (of_char c :: nat) \<le> 126 then [c]
      else [CHR 0x5C, CHR ''u'', CHR ''0'', CHR ''0'',
            hex_char (of_char c div 16), hex_char (of_char c mod 16)])"

definition json_string :: "string \<Rightarrow> string" where
  "json_string s = CHR 0x22 # concat (map json_escape_char s) @ [CHR 0x22]"

fun json_value :: "platform \<Rightarrow> pyval \<Rightarrow> error + string" where
  "json_value py PNone = Inr ''null''"
| "json_value py (PBool b) = Inr (if b then ''true'' else ''false'')"
| "json_value py (PInt i) = int_str py i"
| "json_value py (PFloat r) = Inr (float_repr py r)"
| "json_value py (PStr s) = Inr (json_string s)"
| "json_value py (PObj t s j) = (case j of None \<Rightarrow> Inl TypeError | Some txt \<Rightarrow> Inr txt)"

fun json_items :: "platform \<Rightarrow> pyval dict \<Rightarrow> error + string list" where
  "json_items py [] = Inr []"
| "json_items py ((k, v) # d) =
     (case json_value py v of
        Inl e \<Rightarrow> Inl e
      | Inr txt \<Rightarrow>
          (case json_items py d of
             Inl e \<Rightarrow> Inl e
           | Inr txts \<Rightarrow> Inr ((json_string k @ '': '' @ txt) # txts)))"

fun join :: "string \<Rightarrow> string list \<Rightarrow> string" where
  "join sep [] = []"
| "join sep [x] = x"
| "join sep (x # y # ys) = x @ sep @ join sep (y # ys)"

definition json_dumps :: "platform \<Rightarrow> pyval dict \<Rightarrow> error + string" where
  "json_dumps py d =
     (case json_items py d of
        Inl e \<Rightarrow> Inl e
      | Inr txts \<Rightarrow> Inr (''{'' @ join '', '' txts @ ''}''))"

text \<open>The formatter's last line, \<open>return json.dumps(payload)\<close>.\<close>

definition format ::
  "string \<Rightarrow> platform \<Rightarrow> environ \<Rightarrow> string dict \<Rightarrow> LogRecord \<Rightarrow> error + string" where
  "format default_name py env RESOURCE_ATTRS record =
     (case format_payload default_name py env RESOURCE_ATTRS record of
        Inl e \<Rightarrow> Inl e
      | Inr payload \<Rightarrow> json_dumps py payload)"

definition backend_format ::
  "platform \<Rightarrow> environ \<Rightarrow> string dict \<Rightarrow> LogRecord \<Rightarrow> error + string" where
  "backend_format = format ''backend''"

definition frontend_format ::
  "platform \<Rightarrow> environ \<Rightarrow> string dict \<Rightarrow> LogRecord \<Rightarrow> error + string" where
  "frontend_format = format ''frontend''"

text \<open>
  \<open>json.loads\<close>, for the texts this development needs: one object whose values are
  strings, numbers, \<open>true\<close>, \<open>false\<close> or \<open>null\<close>. \<open>None\<close> stands for an
  exception (\<open>JSONDecodeError\<close>, or \<open>ValueError\<close> for an integer beyond the digit
  limit) and for a text outside this model (a nested array or object, a \<open>\uXXXX\<close>
  escape of a code point above 255). The scanners return the value read and the rest of
  the text.

  A string, after its opening quote: up to the closing quote, with the escapes decoded;
  an unescaped control character is an error.
\<close>

definition hex_val :: "char \<Rightarrow> nat option" where
  "hex_val c =
     (let n = (of_char c :: nat) in
      if 48 \<le> n \<and> n \<le> 57 then Some (n - 48)
      else if 97 \<le> n \<and> n \<le> 102 then Some (n - 87)
      else if 65 \<le> n \<and> n \<le> 70 then Some (n - 55)
      else None)"

fun decode_hex4 :: "string \<Rightarrow> char option" where
  "decode_hex4 [a, b, c, d] =
     (case (hex_val a, hex_val b, hex_val c, hex_val d) of
        (Some x3, Some x2, Some x1, Some x0) \<Rightarrow>
          (let n = ((x3 * 16 + x2) * 16 + x1) * 16 + x0 in
           if n < 256 then Some (char_of n) else None)
      | _ \<Rightarrow> None)"
| "decode_hex4 _ = None"

definition unescape :: "char \<Rightarrow> char option" where
  "unescape e =
     (if e = CHR 0x22 then Some (CHR 0x22)
      else if e = CHR 0x5C then Some (CHR 0x5C)
      else if e = CHR ''/'' then Some (CHR ''/'')
      else if e = CHR ''b'' then Some (CHR 0x08)
      else if e = CHR ''f'' then Some (CHR 0x0C)
      else if e = CHR ''n'' then Some (CHR 0x0A)
      else if e = CHR ''r'' then Some (CHR 0x0D)
      else if e = CHR ''t'' then Some (CHR 0x09)
      else None)"

function scan_string :: "string \<Rightarrow> (string \<times> string) option" where
  "scan_string [] = None"
| "scan_string (c # cs) =
     (if c = CHR 0x22 then Some ([], cs)
      else if c = CHR 0x5C then
        (case cs of
           [] \<Rightarrow> None
         | e # es \<Rightarrow>
             if e = CHR ''u'' then
               (case decode_hex4 (take 4 es) of
                  None \<Rightarrow> None
                | Some ch \<Rightarrow>
                    (case scan_string (drop 4 es) of
                       None \<Rightarrow> None
                     | Some (s, rest) \<Rightarrow> Some (ch # s, rest)))
             else
               (case unescape e of
                  None \<Rightarrow> None
                | Some ch \<Rightarrow>
                    (case scan_string es of
                       None \<Rightarrow> None
                     | Some (s, rest) \<Rightarrow> Some (ch # s, rest))))
      else if (of_char c :: nat) < 32 then None
      else (case scan_string cs of
              None \<Rightarrow> None
            | Some (s, rest) \<Rightarrow> Some (c # s, rest)))"
  by pat_completeness auto
termination
  by (relation "measure length") auto

declare scan_string.simps [simp del]

text \<open>
  A number, by the decoder's pattern
  \<^verbatim>\<open>(-?(?:0|[1-9]\d*))(\.\d+)?([eE][-+]?\d+)?\<close>:
  an \<open>int\<close> when neither a fraction nor an exponent follows the integer part, else the
  \<open>float\<close> of the whole numeral.
\<close>

definition is_digit :: "char \<Rightarrow> bool" where
  "is_digit c = (48 \<le> (of_char c :: nat) \<and> (of_char c :: nat) \<le> 57)"

definition digit_val :: "char \<Rightarrow> nat" where
  "digit_val c = of_char c - 48"

definition nat_of_digits :: "string \<Rightarrow> nat" where
  "nat_of_digits ds = foldl (\<lambda>a c. 10 * a + digit_val c) 0 ds"

definition scan_sign :: "string \<Rightarrow> string \<times> string" where
  "scan_sign s =
     (case s of
        [] \<Rightarrow> ([], s)
      | c # r \<Rightarrow> if c = CHR ''-'' then ([c], r) else ([], s))"

definition scan_integer :: "string \<Rightarrow> string \<times> string" where
  "scan_integer s =
     (case s of
        [] \<Rightarrow> ([], s)
      | c # r \<Rightarrow>
          if c = CHR ''0'' then ([c], r)
          else (takeWhile is_digit s, dropWhile is_digit s))"

definition scan_fraction :: "string \<Rightarrow> string \<times> string" where
  "scan_fraction s =
     (case s of
        [] \<Rightarrow> ([], s)
      | c # r \<Rightarrow>
          if c = CHR ''.'' \<and> takeWhile is_digit r \<noteq> []
          then (c # takeWhile is_digit r, dropWhile is_digit r)
          else ([], s))"

definition scan_exponent :: "string \<Rightarrow> string \<times> string" where
  "scan_exponent s =
     (case s of
        [] \<Rightarrow> ([], s)
      | e # r \<Rightarrow>
          if e = CHR ''e'' \<or> e = CHR ''E'' then
            (let (sg, r1) =
                   (case r of
                      [] \<Rightarrow> ([], r)
                    | c # r' \<Rightarrow> if c = CHR ''+'' \<or> c = CHR ''-'' then ([c], r') else ([], r))
             in if takeWhile is_digit r1 \<noteq> []
                then (e # sg @ takeWhile is_digit r1, dropWhile is_digit r1)
                else ([], s))
          else ([], s))"

definition scan_number :: "platform \<Rightarrow> string \<Rightarrow> (pyval \<times> string) option" where
  "scan_number py s =
     (let (sg, s1) = scan_sign s;
          (ip, s2) = scan_integer s1;
          (frac, s3) = scan_fraction s2;
          (ex, s4) = scan_exponent s3
      in if ip = [] then None
         else if frac = [] \<and> ex = [] then
           (if digits_fit py (length ip) then
              Some (PInt (if sg = [] then int (nat_of_digits ip)
                          else - int (nat_of_digits ip)), s4)
            else None)
         else Some (PFloat (parse_float py (sg @ ip @ frac @ ex)), s4))"

definition scan_value :: "platform \<Rightarrow> string \<Rightarrow> (pyval \<times> string) option" where
  "scan_value py s =
     (case s of
        [] \<Rightarrow> None
      | c # cs \<Rightarrow>
          if c = CHR 0x22 then
            (case scan_string cs of
               None \<Rightarrow> None
             | Some (str, rest) \<Rightarrow> Some (PStr str, rest))
          else if take 4 s = ''null'' then Some (PNone, drop 4 s)
          else if take 4 s = ''true'' then Some (PBool True, drop 4 s)
          else if take 5 s = ''false'' then Some (PBool False, drop 5 s)
          else scan_number py s)"

definition json_ws :: "char \<Rightarrow> bool" where
  "json_ws c = (c = CHR '' '' \<or> c = CHR 0x09 \<or> c = CHR 0x0A \<or> c = CHR 0x0D)"

definition skip_ws :: "string \<Rightarrow> string" where
  "skip_ws s = dropWhile json_ws s"

text \<open>
  The members of an object, from the opening quote of a key to the closing brace. The
  decoder's loop reads at least one character for every member, so the length of the
  text is fuel enough; \<open>scan_members\<close> returns \<open>None\<close> when the fuel runs out.
\<close>

fun scan_members :: "platform \<Rightarrow> nat \<Rightarrow> string \<Rightarrow> (pyval dict \<times> string) option" where
  "scan_members py 0 s = None"
| "scan_members py (Suc n) s =
     (case s of
        [] \<Rightarrow> None
      | c # s1 \<Rightarrow>
          if c \<noteq> CHR 0x22 then None
          else
            (case scan_string s1 of
               None \<Rightarrow> None
             | Some (key, s2) \<Rightarrow>
                 (case skip_ws s2 of
                    [] \<Rightarrow> None
                  | c2 # s3 \<Rightarrow>
                      if c2 \<noteq> CHR '':'' then None
                      else
                        (case scan_value py (skip_ws s3) of
                           None \<Rightarrow> None
                         | Some (v, s4) \<Rightarrow>
                             (case skip_ws s4 of
                                [] \<Rightarrow> None
                              | c3 # s5 \<Rightarrow>
                                  if c3 = CHR ''}'' then Some ([(key, v)], s5)
                                  else if c3 = CHR '','' then
                                    (case scan_members py n (skip_ws s5) of
                                       None \<Rightarrow> None
                                     | Some (pairs, rest) \<Rightarrow> Some ((key, v) # pairs, rest))
                                  else None)))))"

definition json_loads :: "platform \<Rightarrow> string \<Rightarrow> pyval dict option" where
  "json_loads py s =
     (case skip_ws s of
        [] \<Rightarrow> None
      | c # s1 \<Rightarrow>
          if c \<noteq> CHR ''{'' then None
          else
            (case skip_ws s1 of
               [] \<Rightarrow> None
             | c1 # s2 \<Rightarrow>
                 if c1 = CHR ''}'' then (if skip_ws s2 = [] then Some [] else None)
                 else
                   (case scan_members py (length s) (skip_ws s1) of
                      None \<Rightarrow> None
                    | Some (pairs, rest) \<Rightarrow>
                        if skip_ws rest = []
                        then Some (foldl (\<lambda>d (k, v). dict_set d k v) [] pairs)
                        else None)))"

text \<open>
  The values the round trip is stated for: \<open>None\<close>, a \<open>bool\<close>, a \<open>str\<close>, an
  \<open>int\<close> within the digit limit, and a float whose \<open>repr\<close> the decoder reads as one
  float numeral.
\<close>

definition float_token :: "platform \<Rightarrow> string \<Rightarrow> bool" where
  "float_token py txt =
     (\<forall>c r. c = CHR '','' \<or> c = CHR ''}'' \<longrightarrow>
        (\<exists>x. scan_value py (txt @ c # r) = Some (PFloat x, c # r)))"

fun json_safe :: "platform \<Rightarrow> pyval \<Rightarrow> bool" where
  "json_safe py (PFloat r) = float_token py (float_repr py r)"
| "json_safe py (PInt i) = digits_fit py (length (str_nat (nat \<bar>i\<bar>)))"
| "json_safe py (PObj t s j) = False"
| "json_safe py v = True"

text \<open>
  What the decoder reads for an encoded value: the value itself, and some float for a
  float (whether it is the same float is a matter of the platform's \<open>repr\<close> and
  \<open>float()\<close>).
\<close>

fun reads_as :: "pyval \<Rightarrow> pyval \<Rightarrow> bool" where
  "reads_as (PFloat x) (PFloat r) = True"
| "reads_as v' (PFloat r) = False"
| "reads_as v' v = (v' = v)"

definition same_entries :: "pyval dict \<Rightarrow> pyval dict \<Rightarrow> bool" where
  "same_entries parsed d =
     list_all2 (\<lambda>a b. fst a = fst b \<and> reads_as (snd a) (snd b)) parsed d"


section \<open>An example event\<close>

text \<open>
  The specification's end-to-end scenario: \<open>get_item\<close> of the backend calls
  \<open>logger.info("item fetched", extra={"key": "alpha", "latency_ms": 7})\<close> at
  2023-11-14 22:13:20.123456 UTC. \<open>library_record\<close> holds the twenty attributes that
  \<open>LogRecord.__init__\<close> sets for that call, in its order; \<open>example_extra\<close> is the
  call's \<open>extra\<close> mapping. \<open>example_record\<close> is the \<open>__dict__\<close> of the record
  that reaches the formatter when the call happens inside a span with trace id
  \<open>abc123\<close> and span id \<open>def456\<close>: the library's attributes, those of the
  instrumentation's factory, then those of \<open>extra\<close>. \<open>outside_span_record\<close> is the
  record that the factory makes for the same call when no span is active.
  \<open>example_platform\<close> is a platform for the examples: its clock and time zone are fixed
  at that second, and its \<open>strftime\<close> prints the six fields of the formatter's
  \<open>datefmt\<close> with two or four digits and leaves every other character, \<open>%f\<close>
  included, as it is.
\<close>

definition library_record :: LogRecord where
  "library_record =
     [(''name'', PStr ''backend''),
      (''msg'', PStr ''item fetched''),
      (''args'', PObj False ''()'' (Some ''[]'')),
      (''levelname'', PStr ''INFO''),
      (''levelno'', PInt 20),
      (''pathname'', PStr ''/app/main.py''),
      (''filename'', PStr ''main.py''),
      (''module'', PStr ''main''),
      (''exc_info'', PNone),
      (''exc_text'', PNone),
      (''stack_info'', PNone),
      (''lineno'', PInt 170),
      (''funcName'', PStr ''get_item''),
      (''created'', PFloat 1700000000.123456),
      (''msecs'', PFloat 123),
      (''relativeCreated'', PFloat 5000.5),
      (''thread'', PInt 1),
      (''threadName'', PStr ''MainThread''),
      (''processName'', PStr ''MainProcess''),
      (''process'', PInt 1)]"

definition example_extra :: "pyval dict" where
  "example_extra = [(''key'', PStr ''alpha''), (''latency_ms'', PInt 7)]"

definition outside_span_record :: LogRecord where
  "outside_span_record = record_factory None ''backend'' library_record"

definition example_record :: LogRecord where
  "example_record =
     [(''name'', PStr ''backend''),
      (''msg'', PStr ''item fetched''),
      (''args'', PObj False ''()'' (Some ''[]'')),
      (''levelname'', PStr ''INFO''),
      (''levelno'', PInt 20),
      (''pathname'', PStr ''/app/main.py''),
      (''filename'', PStr ''main.py''),
      (''module'', PStr ''main''),
      (''exc_info'', PNone),
      (''exc_text'', PNone),
      (''stack_info'', PNone),
      (''lineno'', PInt 170),
      (''funcName'', PStr ''get_item''),
      (''created'', PFloat 1700000000.123456),
      (''msecs'', PFloat 123),
      (''relativeCreated'', PFloat 5000.5),
      (''thread'', PInt 1),
      (''threadName'', PStr ''MainThread''),
      (''processName'', PStr ''MainProcess''),
      (''process'', PInt 1),
      (''otelSpanID'', PStr ''def456''),
      (''otelTraceID'', PStr ''abc123''),
      (''otelTraceSampled'', PBool True),
      (''otelServiceName'', PStr ''backend''),
      (''key'', PStr ''alpha''),
      (''latency_ms'', PInt 7)]"

definition two_digits :: "int \<Rightarrow> string" where
  "two_digits i = (if i < 10 then CHR ''0'' # str_int i else str_int i)"

fun example_strftime :: "string \<Rightarrow> struct_time \<Rightarrow> string" where
  "example_strftime [] t = []"
| "example_strftime [c] t = [c]"
| "example_strftime (c # d # cs) t =
     (if c \<noteq> CHR ''%'' then c # example_strftime (d # cs) t
      else if d = CHR ''Y'' then str_int (tm_year t) @ example_strftime cs t
      else if d = CHR ''m'' then two_digits (tm_mon t) @ example_strftime cs t
      else if d = CHR ''d'' then two_digits (tm_mday t) @ example_strftime cs t
      else if d = CHR ''H'' then two_digits (tm_hour t) @ example_strftime cs t
      else if d = CHR ''M'' then two_digits (tm_min t) @ example_strftime cs t
      else if d = CHR ''S'' then two_digits (tm_sec t) @ example_strftime cs t
      else c # d # example_strftime cs t)"

definition example_platform :: platform where
  "example_platform =
     \<lparr>float_repr = (\<lambda>r. ''0.0''),
      parse_float = (\<lambda>s. 0),
      percent_format = (\<lambda>s a. Inl TypeError),
      int_max_str_digits = 4300,
      clock = 1700000000,
      localtime = (\<lambda>secs. Inr \<lparr>tm_year = 2023, tm_mon = 11, tm_mday = 14, tm_hour = 22,
                                  tm_min = 13, tm_sec = 20, tm_wday = 1, tm_yday = 318,
                                  tm_isdst = 0\<rparr>),
      strftime = example_strftime\<rparr>"

text \<open>
  Three more records. In \<open>spoofing_record\<close> the instrumentation names the service
  \<open>checkout\<close> and the call site tries to set fixed fields through \<open>extra\<close>.
  \<open>untraced_record\<close> carries no attribute of the tracing instrumentation at all, as
  a record does that was made before the instrumentation was installed or by hand
  (\<open>logging.makeLogRecord\<close>).
  \<open>unnamed_record\<close> is a record made outside any span by an instrumentation that knows
  no service name: it sets \<open>otelServiceName\<close> to the empty string.
\<close>

definition spoofing_record :: LogRecord where
  "spoofing_record =
     [(''name'', PStr ''backend''),
      (''msg'', PStr ''item fetched''),
      (''args'', PObj False ''()'' (Some ''[]'')),
      (''levelname'', PStr ''INFO''),
      (''created'', PFloat 1700000000.123456),
      (''otelSpanID'', PStr ''def456''),
      (''otelTraceID'', PStr ''abc123''),
      (''otelServiceName'', PStr ''checkout''),
      (''service.name'', PStr ''spoofed''),
      (''event.dataset'', PStr ''spoofed.log''),
      (''trace.id'', PStr ''spoofed''),
      (''@timestamp'', PStr ''never''),
      (''key'', PStr ''alpha'')]"

definition untraced_record :: LogRecord where
  "untraced_record =
     [(''name'', PStr ''backend''),
      (''msg'', PStr ''starting''),
      (''args'', PObj False ''()'' (Some ''[]'')),
      (''levelname'', PStr ''WARNING''),
      (''created'', PFloat 1700000000.654321),
      (''hits'', PInt 5),
      (''elapsed'', PFloat 0)]"

definition unnamed_record :: LogRecord where
  "unnamed_record =
     [(''name'', PStr ''backend''),
      (''msg'', PStr ''starting''),
      (''args'', PObj False ''()'' (Some ''[]'')),
      (''levelname'', PStr ''INFO''),
      (''created'', PFloat 1700000000.5),
      (''otelSpanID'', PStr ''0''),
      (''otelTraceID'', PStr ''0''),
      (''otelTraceSampled'', PBool False),
      (''otelServiceName'', PStr [])]"


section \<open>Properties of dictionaries and strings\<close>

lemma map_of_dict_set: "map_of (dict_set d k v) = (map_of d)(k \<mapsto> v)"
  by (induction d) (auto simp: fun_eq_iff)

lemma length_dict_set: "length (dict_set d k v) \<le> Suc (length d)"
  by (induction d) auto

lemma map_fst_dict_set:
  "map fst (dict_set d k v) = (if k \<in> fst ` set d then map fst d else map fst d @ [k])"
  by (induction d) force+

lemma keys_dict_set: "fst ` set (dict_set d k v) = insert k (fst ` set d)"
proof -
  have "set (map fst (dict_set d k v)) = insert k (set (map fst d))"
    unfolding map_fst_dict_set by auto
  then show ?thesis by simp
qed

lemma distinct_dict_set: "distinct (map fst d) \<Longrightarrow> distinct (map fst (dict_set d k v))"
  unfolding map_fst_dict_set by auto

lemma dict_set_fresh: "k \<notin> fst ` set d \<Longrightarrow> dict_set d k v = d @ [(k, v)]"
  by (induction d) auto

lemma split_n_absent: "sep \<notin> set s \<Longrightarrow> split_n n sep s = [s]"
  by (cases n) simp_all

lemma dropWhile_rev_commute:
  "dropWhile P (rev (dropWhile P (rev xs))) = rev (dropWhile P (rev (dropWhile P xs)))"
  by (induction xs) (auto simp: dropWhile_append dest: set_dropWhileD)

lemma strip_rstrip: "strip (rstrip s) = strip s"
proof -
  have "rstrip (lstrip (rstrip s)) = rstrip (rstrip (lstrip s))"
    unfolding lstrip_def rstrip_def using dropWhile_rev_commute [of isspace s] by simp
  also have "\<dots> = rstrip (lstrip s)"
    by (simp add: rstrip_def)
  finally show ?thesis by (simp add: strip_def)
qed

lemma strip_Nil: "strip [] = []"
  by (simp add: strip_def lstrip_def rstrip_def)

lemma rstrip_Cons_nonspace: "\<not> isspace c \<Longrightarrow> rstrip (c # s) = c # rstrip s"
  by (auto simp: rstrip_def dropWhile_append)

lemma lstrip_spaces_append:
  "list_all isspace ws \<Longrightarrow> \<not> isspace c \<Longrightarrow> lstrip (ws @ c # s) = c # s"
  by (induction ws) (simp_all add: lstrip_def)

lemma equals_sign_not_space: "\<not> isspace (CHR ''='')"
  by (simp add: isspace_def)

lemma isspace_not_comma: "isspace c \<Longrightarrow> c \<noteq> CHR '',''"
  by (auto simp: isspace_def)

lemma mem_dropWhile: "x \<in> set xs \<Longrightarrow> \<not> P x \<Longrightarrow> x \<in> set (dropWhile P xs)"
  by (induction xs) auto

lemma mem_strip: "c \<in> set s \<Longrightarrow> \<not> isspace c \<Longrightarrow> c \<in> set (strip s)"
  by (simp add: strip_def lstrip_def rstrip_def mem_dropWhile)

lemma set_strip_subset: "set (strip s) \<subseteq> set s"
  by (auto simp: strip_def lstrip_def rstrip_def dest!: set_dropWhileD)

lemma foldl_update_other:
  "k \<notin> fst ` set kvs \<Longrightarrow> foldl (\<lambda>m (k, v). m(k \<mapsto> v)) m kvs k = m k"
  by (induction kvs arbitrary: m) auto

lemma foldl_update_last:
  assumes "k \<notin> fst ` set after"
  shows "foldl (\<lambda>m (k, v). m(k \<mapsto> v)) m (before @ (k, v) # after) k = Some v"
  using assms by (simp add: foldl_update_other)

lemma foldl_update_dom:
  "dom (foldl (\<lambda>m (k, v). m(k \<mapsto> v)) m kvs) = dom m \<union> fst ` set kvs"
  by (induction kvs arbitrary: m) auto

section \<open>The parser: the loop as a fold\<close>

lemma parse_loop_fold:
  "parse_loop attrs parts =
     Inr (foldl (\<lambda>d (k, v). dict_set d k v) attrs
       (map spec_pair (filter (\<lambda>seg. seg \<noteq> [] \<and> CHR ''='' \<in> set seg) (map strip parts))))"
  by (induction parts arbitrary: attrs) (simp_all add: Let_def spec_pair_def)

lemma map_of_foldl_dict_set:
  "map_of (foldl (\<lambda>d (k, v). dict_set d k v) d kvs) =
     foldl (\<lambda>m (k, v). m(k \<mapsto> v)) (map_of d) kvs"
  by (induction kvs arbitrary: d) (auto simp: map_of_dict_set)

lemma length_foldl_dict_set:
  "length (foldl (\<lambda>d (k, v). dict_set d k v) d kvs) \<le> length d + length kvs"
proof (induction kvs arbitrary: d)
  case Nil
  then show ?case by simp
next
  case (Cons kv kvs)
  obtain k v where kv: "kv = (k, v)" by (cases kv)
  have "length (foldl (\<lambda>d (k, v). dict_set d k v) (dict_set d k v) kvs)
          \<le> length (dict_set d k v) + length kvs"
    by (rule Cons.IH)
  also have "\<dots> \<le> Suc (length d) + length kvs"
    using length_dict_set [of d k v] by simp
  finally show ?case by (simp add: kv)
qed

lemma parse_resource_attributes_fold:
  "parse_resource_attributes raw =
     Inr (foldl (\<lambda>d (k, v). dict_set d k v) [] (map spec_pair (spec_segments raw)))"
  by (simp add: parse_resource_attributes_def parse_loop_fold spec_segments_def
      str_split_def strip_Nil)

lemma frontend_parse_loop_eq: "frontend_parse_loop attrs parts = parse_loop attrs parts"
  by (induction parts arbitrary: attrs) (simp_all add: Let_def split: list.splits)

section \<open>Claims about the resource-attribute parser\<close>

text \<open>
  Claim C4. For every configuration string, \<open>parse_resource_attributes\<close> returns the
  mapping the specification describes: split on the comma, trim each segment, skip the
  empty segments and those without an equals sign, cut at the first equals sign only,
  trim key and value, later duplicates overwrite earlier ones. In particular
  \<open>parse("a=1,b=2") = {"a": "1", "b": "2"}\<close> and \<open>parse("bad,,x=") = {"x": ""}\<close>.
\<close>

theorem parse_resource_attributes_meets_spec:
  "(\<exists>attrs. parse_resource_attributes raw = Inr attrs \<and> map_of attrs = spec_parse raw)
   \<and> parse_resource_attributes ''a=1,b=2'' = Inr [(''a'', ''1''), (''b'', ''2'')]
   \<and> parse_resource_attributes ''bad,,x='' = Inr [(''x'', [])]"
proof (intro conjI)
  show "\<exists>attrs. parse_resource_attributes raw = Inr attrs \<and> map_of attrs = spec_parse raw"
    by (simp add: parse_resource_attributes_fold map_of_foldl_dict_set spec_parse_def)
  show "parse_resource_attributes ''a=1,b=2'' = Inr [(''a'', ''1''), (''b'', ''2'')]"
    by code_simp
  show "parse_resource_attributes ''bad,,x='' = Inr [(''x'', [])]"
    by code_simp
qed

text \<open>
  At \<open>"k=1, k = 2=3 ,"\<close> the later pair wins and the value keeps its own equals sign.
\<close>

theorem parse_resource_attributes_meets_spec_witness:
  "\<exists>attrs. parse_resource_attributes ''k=1, k = 2=3 ,'' = Inr attrs
     \<and> map_of attrs ''k'' = Some ''2=3''"
proof -
  have "spec_parse ''k=1, k = 2=3 ,'' ''k'' = Some ''2=3''"
    by code_simp
  with parse_resource_attributes_meets_spec [of "''k=1, k = 2=3 ,''"] show ?thesis
    by auto
qed

text \<open>
  Claim C6. \<open>parse_resource_attributes\<close> never raises: for every input string it returns
  a mapping, and malformed segments only make it smaller (it has at most one attribute
  for each trimmed segment that is non-empty and contains an equals sign).
\<close>

theorem parse_resource_attributes_never_fails:
  "\<exists>attrs. parse_resource_attributes raw = Inr attrs
     \<and> length attrs \<le> length (spec_segments raw)"
  using length_foldl_dict_set [of "[]" "map spec_pair (spec_segments raw)"]
  by (simp add: parse_resource_attributes_fold)

theorem parse_resource_attributes_never_fails_witness:
  "\<exists>attrs. parse_resource_attributes ''bad,,=,no equals, a=1'' = Inr attrs
     \<and> length attrs \<le> 2"
proof -
  have "length (spec_segments ''bad,,=,no equals, a=1'') = 2"
    by code_simp
  with parse_resource_attributes_never_fails [of "''bad,,=,no equals, a=1''"]
  show ?thesis by auto
qed

text \<open>
  The claim's own example first: an input that is one segment made of optional white
  space, an equals sign and a value parses to the dictionary with the empty key alone, so
  \<open>parse("=v") = {"": "v"}\<close>.
\<close>

lemma parse_single_empty_key_segment:
  assumes "list_all isspace ws" and "CHR '','' \<notin> set v"
  shows "parse_resource_attributes (ws @ CHR ''='' # v) = Inr [([], strip v)]"
proof -
  let ?raw = "ws @ CHR ''='' # v"
  have "CHR '','' \<notin> set ws"
    using assms(1) isspace_not_comma by (auto simp: list_all_iff)
  with assms(2) have "CHR '','' \<notin> set ?raw" by simp
  then have parts: "str_split (CHR '','') ?raw = [?raw]"
    unfolding str_split_def by (rule split_n_absent)
  have part: "strip ?raw = CHR ''='' # rstrip v"
    using assms(1)
    by (simp add: strip_def lstrip_spaces_append rstrip_Cons_nonspace equals_sign_not_space)
  show ?thesis
    by (simp add: parse_resource_attributes_def parts part strip_rstrip strip_Nil)
qed

text \<open>
  Claim C9. A segment whose key is empty after trimming is not skipped, wherever it
  stands in the input. Let \<open>part\<close> be any of the comma-separated segments of \<open>raw\<close>,
  with an equals sign in it and nothing but white space before its first equals sign.
  Then the parser returns a mapping that has the empty string as a key; and unless a
  later segment has an empty key too (a later duplicate overwrites an earlier one), the
  empty key maps to the trimmed text after the segment's first equals sign.
\<close>

theorem parse_resource_attributes_empty_key:
  assumes "str_split (CHR '','') raw = before @ part # after"
    and "CHR ''='' \<in> set part"
    and "strip (takeWhile (\<lambda>c. c \<noteq> CHR ''='') (strip part)) = []"
  shows "\<exists>attrs. parse_resource_attributes raw = Inr attrs
           \<and> [] \<in> fst ` set attrs
           \<and> ((\<forall>p\<in>set after. CHR ''='' \<in> set p \<longrightarrow>
                   strip (takeWhile (\<lambda>c. c \<noteq> CHR ''='') (strip p)) \<noteq> [])
                \<longrightarrow> map_of attrs [] =
                      Some (strip (drop 1 (dropWhile (\<lambda>c. c \<noteq> CHR ''='') (strip part)))))"
proof -
  let ?ok = "\<lambda>seg. seg \<noteq> [] \<and> CHR ''='' \<in> set seg"
  let ?val = "strip (drop 1 (dropWhile (\<lambda>c. c \<noteq> CHR ''='') (strip part)))"
  let ?attrs = "foldl (\<lambda>d (k, v). dict_set d k v) [] (map spec_pair (spec_segments raw))"
  have kept: "?ok (strip part)"
    using mem_strip [OF assms(2) equals_sign_not_space] by auto
  have pair: "spec_pair (strip part) = ([], ?val)"
    by (simp add: spec_pair_def assms(3))
  have segs: "map spec_pair (spec_segments raw) =
      map spec_pair (filter ?ok (map strip before)) @ ([], ?val)
        # map spec_pair (filter ?ok (map strip after))"
    using kept by (simp add: spec_segments_def assms(1) pair)
  have run: "parse_resource_attributes raw = Inr ?attrs"
    by (rule parse_resource_attributes_fold)
  have lookup: "map_of ?attrs =
      foldl (\<lambda>m (k, v). m(k \<mapsto> v)) Map.empty (map spec_pair (spec_segments raw))"
    by (simp add: map_of_foldl_dict_set)
  have "dom (map_of ?attrs) = fst ` set (map spec_pair (spec_segments raw))"
    by (simp add: lookup foldl_update_dom)
  then have "[] \<in> dom (map_of ?attrs)"
    by (simp add: segs)
  then have present: "[] \<in> fst ` set ?attrs"
    by (simp add: dom_map_of_conv_image_fst)
  have last: "map_of ?attrs [] = Some ?val"
    if later: "\<forall>p\<in>set after. CHR ''='' \<in> set p \<longrightarrow>
                 strip (takeWhile (\<lambda>c. c \<noteq> CHR ''='') (strip p)) \<noteq> []"
  proof -
    have "[] \<notin> fst ` set (map spec_pair (filter ?ok (map strip after)))"
    proof
      assume "[] \<in> fst ` set (map spec_pair (filter ?ok (map strip after)))"
      then obtain p where p: "p \<in> set after" "CHR ''='' \<in> set (strip p)"
        and key: "fst (spec_pair (strip p)) = []"
        by auto
      from p(2) set_strip_subset have "CHR ''='' \<in> set p" by blast
      with later p(1) have "strip (takeWhile (\<lambda>c. c \<noteq> CHR ''='') (strip p)) \<noteq> []"
        by blast
      with key show False by (simp add: spec_pair_def)
    qed
    then have "foldl (\<lambda>m (k, v). m(k \<mapsto> v)) Map.empty
                 (map spec_pair (filter ?ok (map strip before)) @ ([], ?val)
                    # map spec_pair (filter ?ok (map strip after))) [] = Some ?val"
      by (rule foldl_update_last)
    then show ?thesis
      by (simp only: segs lookup [unfolded segs])
  qed
  from run present last show ?thesis by blast
qed

text \<open>
  The input \<open>"a=1, =v ,b=2"\<close>, whose second segment has an empty key, and the claim's
  example \<open>"=v"\<close>.
\<close>

theorem parse_resource_attributes_empty_key_witness:
  "(\<exists>attrs. parse_resource_attributes ''a=1, =v ,b=2'' = Inr attrs
      \<and> [] \<in> fst ` set attrs
      \<and> map_of attrs [] = Some ''v'' \<and> map_of attrs ''a'' = Some ''1'')
   \<and> parse_resource_attributes ''=v'' = Inr [([], ''v'')]"
proof -
  have parts: "str_split (CHR '','') ''a=1, =v ,b=2'' = [''a=1''] @ '' =v '' # [''b=2'']"
    by code_simp
  have eq: "CHR ''='' \<in> set '' =v ''" by simp
  have key: "strip (takeWhile (\<lambda>c. c \<noteq> CHR ''='') (strip '' =v '')) = []"
    by code_simp
  have later: "\<forall>p\<in>set [''b=2'']. CHR ''='' \<in> set p \<longrightarrow>
                 strip (takeWhile (\<lambda>c. c \<noteq> CHR ''='') (strip p)) \<noteq> []"
    by code_simp
  have val: "strip (drop 1 (dropWhile (\<lambda>c. c \<noteq> CHR ''='') (strip '' =v ''))) = ''v''"
    by code_simp
  from parse_resource_attributes_empty_key [OF parts eq key] later val
  obtain attrs where "parse_resource_attributes ''a=1, =v ,b=2'' = Inr attrs"
    and "[] \<in> fst ` set attrs"
    and "map_of attrs [] = Some ''v''"
    by auto
  moreover have "parse_resource_attributes ''a=1, =v ,b=2''
                   = Inr [(''a'', ''1''), ([], ''v''), (''b'', ''2'')]"
    by code_simp
  moreover have "parse_resource_attributes ''=v'' = Inr [([], ''v'')]"
    by code_simp
  ultimately show ?thesis by auto
qed

text \<open>
  Claim C10. The backend's and the frontend's copies of \<open>parse_resource_attributes\<close>
  return the same mapping for every input string.
\<close>

theorem frontend_parser_equals_backend_parser:
  "frontend_parse_resource_attributes raw = parse_resource_attributes raw"
  by (simp add: frontend_parse_resource_attributes_def parse_resource_attributes_def
      frontend_parse_loop_eq)

theorem frontend_parser_equals_backend_parser_witness:
  "frontend_parse_resource_attributes ''service.version=1.2, deployment.environment=prod''
     = Inr [(''service.version'', ''1.2''), (''deployment.environment'', ''prod'')]"
proof -
  have "parse_resource_attributes ''service.version=1.2, deployment.environment=prod''
     = Inr [(''service.version'', ''1.2''), (''deployment.environment'', ''prod'')]"
    by code_simp
  with frontend_parser_equals_backend_parser
    [of "''service.version=1.2, deployment.environment=prod''"]
  show ?thesis by simp
qed


section \<open>The formatter: the loop over the record's attributes\<close>

lemma add_extras_append:
  "\<exists>ext. add_extras payload items = payload @ ext \<and> fst ` set ext \<inter> fst ` set payload = {}"
proof (induction items arbitrary: payload)
  case Nil
  then show ?case by simp
next
  case (Cons item items)
  obtain key val where item: "item = (key, val)" by (cases item)
  show ?case
  proof (cases "dict_contains payload key \<or> startswith key ''otel'' \<or> key \<in> set DENYLIST")
    case True
    then have "add_extras payload (item # items) = add_extras payload items"
      by (auto simp: item)
    with Cons.IH [of payload] show ?thesis by simp
  next
    case False
    then have fresh: "key \<notin> fst ` set payload"
      by (simp add: dict_contains_def)
    from False have step:
      "add_extras payload (item # items) = add_extras (payload @ [(key, val)]) items"
      by (simp add: item dict_set_fresh [OF fresh])
    from Cons.IH [of "payload @ [(key, val)]"] obtain ext where
      ext: "add_extras (payload @ [(key, val)]) items = (payload @ [(key, val)]) @ ext"
        "fst ` set ext \<inter> fst ` set (payload @ [(key, val)]) = {}"
      by blast
    have "add_extras payload (item # items) = payload @ ((key, val) # ext)"
      using step ext(1) by simp
    moreover have "fst ` set ((key, val) # ext) \<inter> fst ` set payload = {}"
      using ext(2) fresh by auto
    ultimately show ?thesis by blast
  qed
qed

lemma add_extras_keeps_lookup:
  assumes "k \<in> fst ` set payload"
  shows "map_of (add_extras payload items) k = map_of payload k"
proof -
  obtain ext where "add_extras payload items = payload @ ext"
    using add_extras_append by blast
  moreover from assms have "k \<in> dom (map_of payload)"
    by (simp add: dom_map_of_conv_image_fst)
  ultimately show ?thesis
    by (auto simp: map_add_dom_app_simps)
qed

lemma add_extras_keeps_entries:
  assumes "k \<in> fst ` set payload" and "(k, v) \<in> set (add_extras payload items)"
  shows "(k, v) \<in> set payload"
proof -
  obtain ext where ext: "add_extras payload items = payload @ ext"
    "fst ` set ext \<inter> fst ` set payload = {}"
    using add_extras_append by blast
  from assms(1) ext(2) have "(k, v) \<notin> set ext" by force
  with assms(2) ext(1) show ?thesis by simp
qed

lemma keys_add_extras:
  "fst ` set (add_extras payload items) =
     fst ` set payload \<union>
     {k \<in> fst ` set items. \<not> startswith k ''otel'' \<and> k \<notin> set DENYLIST}"
proof (induction items arbitrary: payload)
  case Nil
  then show ?case by simp
next
  case (Cons item items)
  obtain key val where item: "item = (key, val)" by (cases item)
  show ?case
    unfolding item by (auto simp: Cons.IH keys_dict_set dict_contains_def)
qed

lemma distinct_add_extras:
  "distinct (map fst payload) \<Longrightarrow> distinct (map fst (add_extras payload items))"
proof (induction items arbitrary: payload)
  case Nil
  then show ?case by simp
next
  case (Cons item items)
  obtain key val where item: "item = (key, val)" by (cases item)
  show ?case
    unfolding item using Cons.prems by (auto intro!: Cons.IH distinct_dict_set)
qed

section \<open>The formatter: the fixed fields\<close>

lemma format_payload_Inr:
  assumes "format_payload d py env ra record = Inr payload"
  shows "\<exists>fixed. fixed_fields d py env ra record = Inr fixed
           \<and> payload = add_extras fixed record"
  using assms by (auto simp: format_payload_def split: sum.splits)

lemma fixed_fields_Inr:
  assumes "fixed_fields d py env ra record = Inr fixed"
  shows "\<exists>ts lv msg nm service_text.
     formatTime py record DATEFMT = Inr ts \<and> attr record ''levelname'' = Inr lv \<and>
     getMessage py record = Inr msg \<and> attr record ''name'' = Inr nm \<and>
     py_str py (service_name_of d env record) = Inr service_text \<and>
     fixed = [(''@timestamp'', PStr ts),
               (''log.level'', lv),
               (''message'', PStr msg),
               (''logger.name'', nm),
               (''trace.id'', dict_get record ''otelTraceID'' (PStr [])),
               (''span.id'', dict_get record ''otelSpanID'' (PStr [])),
               (''service.name'', service_name_of d env record),
               (''service.version'', PStr (dict_get ra ''service.version'' [])),
               (''service.namespace'', PStr (dict_get ra ''service.namespace'' [])),
               (''deployment.environment'', PStr (dict_get ra ''deployment.environment'' [])),
               (''host.name'', PStr (getenv env ''HOSTNAME'' [])),
               (''event.dataset'', PStr (service_text @ ''.log''))]"
  using assms by (auto simp: fixed_fields_def Let_def split: sum.splits)

lemma fixed_fields_keys:
  assumes "fixed_fields d py env ra record = Inr fixed"
  shows "map fst fixed = FIXED_KEYS"
  using fixed_fields_Inr [OF assms] by (auto simp: FIXED_KEYS_def)

lemma fixed_keys_of_payload:
  assumes "fixed_fields d py env ra record = Inr fixed"
  shows "fst ` set fixed = set FIXED_KEYS"
proof -
  have "set (map fst fixed) = set FIXED_KEYS"
    by (simp add: fixed_fields_keys [OF assms])
  then show ?thesis by simp
qed

lemma payload_fixed_lookup:
  assumes "format_payload d py env ra record = Inr payload"
    and "fixed_fields d py env ra record = Inr fixed"
    and "k \<in> set FIXED_KEYS"
  shows "map_of payload k = map_of fixed k"
proof -
  from format_payload_Inr [OF assms(1)] assms(2)
  have "payload = add_extras fixed record" by auto
  moreover have "k \<in> fst ` set fixed"
    using fixed_keys_of_payload [OF assms(2)] assms(3) by simp
  ultimately show ?thesis by (simp add: add_extras_keeps_lookup)
qed

section \<open>Records as the logging library makes them\<close>

lemma makeRecord_extra_keeps:
  assumes "makeRecord_extra rv extra = Inr record" and "dict_contains rv k"
  shows "map_of record k = map_of rv k \<and> k \<notin> fst ` set extra"
  using assms
proof (induction extra arbitrary: rv)
  case Nil
  then show ?case by simp
next
  case (Cons entry extra)
  obtain key val where entry: "entry = (key, val)" by (cases entry)
  from Cons.prems(1) have fresh: "\<not> dict_contains rv key"
    and rest: "makeRecord_extra (dict_set rv key val) extra = Inr record"
    by (auto simp: entry split: if_splits)
  from fresh Cons.prems(2) have differ: "key \<noteq> k" by auto
  have "dict_contains (dict_set rv key val) k"
    using Cons.prems(2) by (simp add: dict_contains_def keys_dict_set)
  from Cons.IH [OF rest this] differ show ?case
    by (simp add: entry map_of_dict_set)
qed

lemma makeRecord_extra_keys:
  assumes "makeRecord_extra rv extra = Inr record"
  shows "fst ` set record = fst ` set rv \<union> fst ` set extra"
  using assms
proof (induction extra arbitrary: rv)
  case Nil
  then show ?case by simp
next
  case (Cons entry extra)
  obtain key val where entry: "entry = (key, val)" by (cases entry)
  from Cons.prems have "makeRecord_extra (dict_set rv key val) extra = Inr record"
    by (auto simp: entry split: if_splits)
  from Cons.IH [OF this] show ?case
    by (auto simp: entry keys_dict_set)
qed

lemma record_factory_outside_span:
  "map_of (record_factory None service_name made) ''otelTraceID'' = Some (PStr ''0'')"
  "map_of (record_factory None service_name made) ''otelSpanID'' = Some (PStr ''0'')"
  by (simp_all add: record_factory_def Let_def map_of_dict_set)

lemma record_factory_has_ids:
  "dict_contains (record_factory active service_name made) ''otelTraceID''"
  "dict_contains (record_factory active service_name made) ''otelSpanID''"
  by (auto simp: record_factory_def Let_def dict_contains_def keys_dict_set
      split: option.splits)

section \<open>The example events, evaluated\<close>

lemmas format_eval =
  format_payload_def fixed_fields_def formatTime_def attr_def getMessage_def
  service_name_of_def py_or_def dict_get_def getenv_def DATEFMT_def
  int_str_def digits_fit_def
  dict_contains_def startswith_def DENYLIST_def example_platform_def
  two_digits_def str_int_def str_nat.simps digit_char_def Let_def

lemma example_payload:
  "format_payload ''backend'' example_platform Map.empty
     [(''deployment.environment'', ''prod'')] example_record =
   Inr [(''@timestamp'', PStr ''2023-11-14T22:13:20.%fZ''),
        (''log.level'', PStr ''INFO''),
        (''message'', PStr ''item fetched''),
        (''logger.name'', PStr ''backend''),
        (''trace.id'', PStr ''abc123''),
        (''span.id'', PStr ''def456''),
        (''service.name'', PStr ''backend''),
        (''service.version'', PStr []),
        (''service.namespace'', PStr []),
        (''deployment.environment'', PStr ''prod''),
        (''host.name'', PStr []),
        (''event.dataset'', PStr ''backend.log''),
        (''name'', PStr ''backend''),
        (''key'', PStr ''alpha''),
        (''latency_ms'', PInt 7)]"
  by (simp add: format_eval example_record_def)

lemma spoofing_payload:
  "format_payload ''backend'' example_platform Map.empty [] spoofing_record =
   Inr [(''@timestamp'', PStr ''2023-11-14T22:13:20.%fZ''),
        (''log.level'', PStr ''INFO''),
        (''message'', PStr ''item fetched''),
        (''logger.name'', PStr ''backend''),
        (''trace.id'', PStr ''abc123''),
        (''span.id'', PStr ''def456''),
        (''service.name'', PStr ''checkout''),
        (''service.version'', PStr []),
        (''service.namespace'', PStr []),
        (''deployment.environment'', PStr []),
        (''host.name'', PStr []),
        (''event.dataset'', PStr ''checkout.log''),
        (''name'', PStr ''backend''),
        (''key'', PStr ''alpha'')]"
  by (simp add: format_eval spoofing_record_def)

lemma untraced_payload:
  "format_payload ''backend'' example_platform Map.empty [] untraced_record =
   Inr [(''@timestamp'', PStr ''2023-11-14T22:13:20.%fZ''),
        (''log.level'', PStr ''WARNING''),
        (''message'', PStr ''starting''),
        (''logger.name'', PStr ''backend''),
        (''trace.id'', PStr []),
        (''span.id'', PStr []),
        (''service.name'', PStr ''backend''),
        (''service.version'', PStr []),
        (''service.namespace'', PStr []),
        (''deployment.environment'', PStr []),
        (''host.name'', PStr []),
        (''event.dataset'', PStr ''backend.log''),
        (''name'', PStr ''backend''),
        (''hits'', PInt 5),
        (''elapsed'', PFloat 0)]"
  by (simp add: format_eval untraced_record_def)

lemma example_record_made:
  "makeRecord_extra
     (record_factory (Some (''abc123'', ''def456'', True)) ''backend'' library_record)
     example_extra = Inr example_record"
  by (simp add: record_factory_def library_record_def example_extra_def example_record_def
      dict_contains_def Let_def)

lemma outside_span_payload:
  "format_payload ''backend'' example_platform Map.empty [] outside_span_record =
   Inr [(''@timestamp'', PStr ''2023-11-14T22:13:20.%fZ''),
        (''log.level'', PStr ''INFO''),
        (''message'', PStr ''item fetched''),
        (''logger.name'', PStr ''backend''),
        (''trace.id'', PStr ''0''),
        (''span.id'', PStr ''0''),
        (''service.name'', PStr ''backend''),
        (''service.version'', PStr []),
        (''service.namespace'', PStr []),
        (''deployment.environment'', PStr []),
        (''host.name'', PStr []),
        (''event.dataset'', PStr ''backend.log''),
        (''name'', PStr ''backend'')]"
  by (simp add: format_eval outside_span_record_def record_factory_def library_record_def)

text \<open>
  The formatter returns a payload for every record as the logging library makes them,
  with a float \<open>created\<close> in the platform's range, with \<open>levelname\<close> and \<open>name\<close>,
  with a string \<open>msg\<close> and empty \<open>args\<close>, with a string or no \<open>otelServiceName\<close>,
  and with no attribute that hides \<open>getMessage\<close>.
\<close>

lemma format_payload_total:
  assumes "map_of record ''created'' = Some (PFloat t)"
    and "localtime py \<lfloor>t\<rfloor> = Inr ct"
    and "map_of record ''levelname'' = Some lv"
    and "map_of record ''name'' = Some nm"
    and "map_of record ''msg'' = Some (PStr m)"
    and "map_of record ''args'' = Some a" and "\<not> truthy a"
    and "\<not> dict_contains record ''getMessage''"
    and "map_of record ''otelServiceName'' = None
           \<or> (\<exists>s. map_of record ''otelServiceName'' = Some (PStr s))"
  shows "\<exists>payload. format_payload d py env ra record = Inr payload"
  using assms
  by (auto simp add: format_payload_def fixed_fields_def formatTime_def getMessage_def
      attr_def service_name_of_def py_or_def dict_get_def Let_def)


section \<open>Claims about the formatter\<close>

text \<open>
  Claim C1. For every log event and every attribute of the record whose key is one of the
  twelve fixed field names, the payload built by \<open>format\<close> keeps the value computed
  for the fixed field and drops the colliding attribute: under a fixed key the payload
  holds the entry of the dictionary literal and no other.
\<close>

theorem fixed_fields_never_overwritten:
  assumes "format_payload d py env ra record = Inr payload"
    and "k \<in> set FIXED_KEYS"
  shows "\<exists>fixed. fixed_fields d py env ra record = Inr fixed
           \<and> map_of payload k = map_of fixed k
           \<and> map_of fixed k \<noteq> None
           \<and> (\<forall>v. (k, v) \<in> set payload \<longrightarrow> (k, v) \<in> set fixed)"
proof -
  from format_payload_Inr [OF assms(1)] obtain fixed where
    fixed: "fixed_fields d py env ra record = Inr fixed"
    and payload: "payload = add_extras fixed record"
    by blast
  have key: "k \<in> fst ` set fixed"
    using fixed_keys_of_payload [OF fixed] assms(2) by simp
  have "map_of payload k = map_of fixed k"
    by (rule payload_fixed_lookup [OF assms(1) fixed assms(2)])
  moreover have "map_of fixed k \<noteq> None"
    using key by (simp add: map_of_eq_None_iff)
  moreover have "\<forall>v. (k, v) \<in> set payload \<longrightarrow> (k, v) \<in> set fixed"
    using add_extras_keeps_entries [OF key] payload by blast
  ultimately show ?thesis using fixed by blast
qed

text \<open>
  \<open>spoofing_record\<close> carries the attributes \<open>service.name = "spoofed"\<close> and
  \<open>@timestamp = "never"\<close>; the payload keeps \<open>checkout\<close> and has no spoofed entry.
\<close>

theorem fixed_fields_never_overwritten_witness:
  "\<exists>payload. format_payload ''backend'' example_platform Map.empty [] spoofing_record
       = Inr payload
     \<and> (''service.name'', PStr ''spoofed'') \<in> set spoofing_record
     \<and> map_of payload ''service.name'' = Some (PStr ''checkout'')
     \<and> (''service.name'', PStr ''spoofed'') \<notin> set payload"
proof -
  let ?run = "format_payload ''backend'' example_platform Map.empty [] spoofing_record"
  obtain payload where run: "?run = Inr payload"
    using spoofing_payload by blast
  have key: "''service.name'' \<in> set FIXED_KEYS"
    by (simp add: FIXED_KEYS_def)
  from fixed_fields_never_overwritten [OF run key] obtain fixed where
    fixed: "fixed_fields ''backend'' example_platform Map.empty [] spoofing_record = Inr fixed"
    and same: "map_of payload ''service.name'' = map_of fixed ''service.name''"
    and only: "\<forall>v. (''service.name'', v) \<in> set payload \<longrightarrow> (''service.name'', v) \<in> set fixed"
    by blast
  from fixed_fields_Inr [OF fixed]
  have name: "map_of fixed ''service.name'' = Some (PStr ''checkout'')"
    and absent: "(''service.name'', PStr ''spoofed'') \<notin> set fixed"
    by (auto simp: service_name_of_def py_or_def dict_get_def spoofing_record_def)
  have "(''service.name'', PStr ''spoofed'') \<in> set spoofing_record"
    by (simp add: spoofing_record_def)
  with run same only name absent show ?thesis by auto
qed

text \<open>
  Claim C3. For every payload built by \<open>format\<close>, \<open>event.dataset\<close> is the text of the
  payload's \<open>service.name\<close> followed by \<open>.log\<close> (\<open>py_str\<close> is \<open>str()\<close>: for a
  string, the string itself), also when \<open>service.name\<close> comes from the record's \<open>otelServiceName\<close>, and
  whatever \<open>event.dataset\<close> attribute the record carries.
\<close>

theorem event_dataset_derived_from_service_name:
  assumes "format_payload d py env ra record = Inr payload"
  shows "\<exists>service_name service_text.
           map_of payload ''service.name'' = Some service_name
           \<and> py_str py service_name = Inr service_text
           \<and> map_of payload ''event.dataset'' = Some (PStr (service_text @ ''.log''))"
proof -
  from format_payload_Inr [OF assms] obtain fixed where
    fixed: "fixed_fields d py env ra record = Inr fixed" by blast
  have "map_of payload ''service.name'' = map_of fixed ''service.name''"
    by (rule payload_fixed_lookup [OF assms fixed]) (simp add: FIXED_KEYS_def)
  moreover have "map_of payload ''event.dataset'' = map_of fixed ''event.dataset''"
    by (rule payload_fixed_lookup [OF assms fixed]) (simp add: FIXED_KEYS_def)
  moreover from fixed_fields_Inr [OF fixed] obtain service_text where
    "py_str py (service_name_of d env record) = Inr service_text"
    and "map_of fixed ''service.name'' = Some (service_name_of d env record)"
    and "map_of fixed ''event.dataset'' = Some (PStr (service_text @ ''.log''))"
    by auto
  ultimately show ?thesis by simp
qed

text \<open>
  In \<open>spoofing_record\<close> the service name is overridden to \<open>checkout\<close> and the call site
  supplies \<open>event.dataset = "spoofed.log"\<close>: the payload says \<open>checkout.log\<close>.
\<close>

theorem event_dataset_derived_from_service_name_witness:
  "\<exists>payload. format_payload ''backend'' example_platform Map.empty [] spoofing_record
       = Inr payload
     \<and> (''event.dataset'', PStr ''spoofed.log'') \<in> set spoofing_record
     \<and> map_of payload ''service.name'' = Some (PStr ''checkout'')
     \<and> map_of payload ''event.dataset'' = Some (PStr ''checkout.log'')"
proof -
  let ?run = "format_payload ''backend'' example_platform Map.empty [] spoofing_record"
  obtain payload where run: "?run = Inr payload"
    using spoofing_payload by blast
  from event_dataset_derived_from_service_name [OF run] obtain service_name service_text
    where name: "map_of payload ''service.name'' = Some service_name"
    and shown: "py_str example_platform service_name = Inr service_text"
    and dataset: "map_of payload ''event.dataset'' = Some (PStr (service_text @ ''.log''))"
    by blast
  from run spoofing_payload have "map_of payload ''service.name'' = Some (PStr ''checkout'')"
    by auto
  with name have "service_name = PStr ''checkout''" by simp
  with name shown dataset have "map_of payload ''service.name'' = Some (PStr ''checkout'')"
    and "map_of payload ''event.dataset'' = Some (PStr ''checkout.log'')"
    by auto
  moreover have "(''event.dataset'', PStr ''spoofed.log'') \<in> set spoofing_record"
    by (simp add: spoofing_record_def)
  ultimately show ?thesis using run by blast
qed

text \<open>
  Claim C5 says that \<open>@timestamp\<close> renders the event's timestamp with microsecond
  precision. The formatter asks for it with \<open>%f\<close>, but \<open>formatTime\<close> formats a
  \<open>struct_time\<close>, which has whole seconds only: the field is
  \<open>strftime(datefmt, localtime(floor(created)))\<close>, so the microseconds of \<open>created\<close>
  never reach the output, on any platform.
\<close>

theorem timestamp_has_whole_seconds_only:
  assumes "format_payload d py env ra record = Inr payload"
    and "map_of record ''created'' = Some (PFloat created)"
  shows "\<exists>ct. localtime py \<lfloor>created\<rfloor> = Inr ct
           \<and> map_of payload ''@timestamp'' = Some (PStr (strftime py DATEFMT ct))"
proof -
  from format_payload_Inr [OF assms(1)] obtain fixed where
    fixed: "fixed_fields d py env ra record = Inr fixed" by blast
  have "map_of payload ''@timestamp'' = map_of fixed ''@timestamp''"
    by (rule payload_fixed_lookup [OF assms(1) fixed]) (simp add: FIXED_KEYS_def)
  moreover from fixed_fields_Inr [OF fixed] obtain ts where
    "formatTime py record DATEFMT = Inr ts" and "map_of fixed ''@timestamp'' = Some (PStr ts)"
    by auto
  ultimately have stamp: "formatTime py record DATEFMT = Inr ts"
    and field: "map_of payload ''@timestamp'' = Some (PStr ts)"
    by simp_all
  from stamp assms(2) obtain ct where "localtime py \<lfloor>created\<rfloor> = Inr ct"
    and "ts = strftime py DATEFMT ct"
    by (auto simp: formatTime_def attr_def split: sum.splits)
  with field show ?thesis by simp
qed

text \<open>
  The records \<open>example_record\<close> and \<open>untraced_record\<close> were created at
  \<open>1700000000.123456\<close> and \<open>1700000000.654321\<close>; both get the same \<open>@timestamp\<close>,
  which on the example platform reads \<open>2023-11-14T22:13:20.%fZ\<close>.
\<close>

theorem timestamp_has_whole_seconds_only_witness:
  "(\<exists>p. format_payload ''backend'' example_platform Map.empty
            [(''deployment.environment'', ''prod'')] example_record = Inr p
      \<and> map_of p ''@timestamp'' = Some (PStr ''2023-11-14T22:13:20.%fZ''))
   \<and> (\<exists>q. format_payload ''backend'' example_platform Map.empty [] untraced_record = Inr q
      \<and> map_of q ''@timestamp'' = Some (PStr ''2023-11-14T22:13:20.%fZ''))"
proof -
  have stamp: "strftime example_platform DATEFMT ct = ''2023-11-14T22:13:20.%fZ''"
    if "localtime example_platform secs = Inr ct" for secs ct
  proof -
    from that have "ct = \<lparr>tm_year = 2023, tm_mon = 11, tm_mday = 14, tm_hour = 22,
                          tm_min = 13, tm_sec = 20, tm_wday = 1, tm_yday = 318,
                          tm_isdst = 0\<rparr>"
      by (simp add: example_platform_def)
    then show ?thesis by (simp add: format_eval)
  qed
  obtain p where p: "format_payload ''backend'' example_platform Map.empty
            [(''deployment.environment'', ''prod'')] example_record = Inr p"
    using example_payload by blast
  have "map_of example_record ''created'' = Some (PFloat 1700000000.123456)"
    by (simp add: example_record_def)
  from timestamp_has_whole_seconds_only [OF p this]
  have p': "map_of p ''@timestamp'' = Some (PStr ''2023-11-14T22:13:20.%fZ'')"
    using stamp by fastforce
  obtain q where q: "format_payload ''backend'' example_platform Map.empty []
            untraced_record = Inr q"
    using untraced_payload by blast
  have "map_of untraced_record ''created'' = Some (PFloat 1700000000.654321)"
    by (simp add: untraced_record_def)
  from timestamp_has_whole_seconds_only [OF q this]
  have "map_of q ''@timestamp'' = Some (PStr ''2023-11-14T22:13:20.%fZ'')"
    using stamp by fastforce
  with p p' q show ?thesis by blast
qed

text \<open>
  Claim C7 says that \<open>trace.id\<close> and \<open>span.id\<close> are the empty string for every event
  built when no span is active. Both modules install the instrumentation's record
  factory at import, and the factory sets \<open>otelTraceID\<close> and \<open>otelSpanID\<close> to the
  string \<open>"0"\<close> on every record before it looks for a span; the formatter copies what
  it finds, and its default \<open>""\<close> is for a missing attribute only. So the event that
  \<open>get_item\<close> would log outside a span comes out with \<open>"0"\<close> in both fields.
\<close>

theorem no_active_span_ids_counterexample:
  "makeRecord_extra (record_factory None ''backend'' library_record) []
     = Inr outside_span_record
   \<and> (case format_payload ''backend'' example_platform Map.empty [] outside_span_record of
         Inl e \<Rightarrow> None
       | Inr payload \<Rightarrow> map_of payload ''trace.id'') = Some (PStr ''0'')
   \<and> (case format_payload ''backend'' example_platform Map.empty [] outside_span_record of
         Inl e \<Rightarrow> None
       | Inr payload \<Rightarrow> map_of payload ''span.id'') = Some (PStr ''0'')"
  by (simp add: outside_span_payload) (simp add: outside_span_record_def)

text \<open>
  Claim C7, amended. For every log event built when no trace span is active, the fields
  \<open>trace.id\<close> and \<open>span.id\<close> are what the record carries as \<open>otelTraceID\<close> and
  \<open>otelSpanID\<close>: the string \<open>"0"\<close> for a record made by the factory that both
  modules install, whatever the call's \<open>extra\<close> mapping and the service name, and the
  empty string \<open>""\<close> only for a record that carries no such attribute.
\<close>

theorem ids_without_active_span:
  assumes "format_payload d py env ra record = Inr payload"
  shows "(makeRecord_extra (record_factory None service_name made) extra = Inr record
            \<longrightarrow> map_of payload ''trace.id'' = Some (PStr ''0'')
                \<and> map_of payload ''span.id'' = Some (PStr ''0''))
       \<and> (map_of record ''otelTraceID'' = None
            \<longrightarrow> map_of payload ''trace.id'' = Some (PStr []))
       \<and> (map_of record ''otelSpanID'' = None
            \<longrightarrow> map_of payload ''span.id'' = Some (PStr []))"
proof -
  from format_payload_Inr [OF assms] obtain fixed where
    fixed: "fixed_fields d py env ra record = Inr fixed" by blast
  have "map_of payload ''trace.id'' = map_of fixed ''trace.id''"
    by (rule payload_fixed_lookup [OF assms fixed]) (simp add: FIXED_KEYS_def)
  moreover have "map_of payload ''span.id'' = map_of fixed ''span.id''"
    by (rule payload_fixed_lookup [OF assms fixed]) (simp add: FIXED_KEYS_def)
  moreover from fixed_fields_Inr [OF fixed]
  have "map_of fixed ''trace.id'' = Some (dict_get record ''otelTraceID'' (PStr []))"
    and "map_of fixed ''span.id'' = Some (dict_get record ''otelSpanID'' (PStr []))"
    by auto
  ultimately have ids:
    "map_of payload ''trace.id'' = Some (dict_get record ''otelTraceID'' (PStr []))"
    "map_of payload ''span.id'' = Some (dict_get record ''otelSpanID'' (PStr []))"
    by simp_all
  have "dict_get record ''otelTraceID'' (PStr []) = PStr ''0''
      \<and> dict_get record ''otelSpanID'' (PStr []) = PStr ''0''"
    if made: "makeRecord_extra (record_factory None service_name made) extra = Inr record"
    using makeRecord_extra_keeps [OF made record_factory_has_ids(1)]
      makeRecord_extra_keeps [OF made record_factory_has_ids(2)]
    by (simp add: dict_get_def record_factory_outside_span)
  then show ?thesis
    unfolding ids by (auto simp: dict_get_def)
qed

text \<open>
  \<open>outside_span_record\<close> is made by the factory outside a span; \<open>untraced_record\<close>
  carries neither attribute.
\<close>

theorem ids_without_active_span_witness:
  "(\<exists>p. format_payload ''backend'' example_platform Map.empty [] outside_span_record = Inr p
      \<and> map_of p ''trace.id'' = Some (PStr ''0'')
      \<and> map_of p ''span.id'' = Some (PStr ''0''))
   \<and> (\<exists>q. format_payload ''backend'' example_platform Map.empty [] untraced_record = Inr q
      \<and> map_of q ''trace.id'' = Some (PStr [])
      \<and> map_of q ''span.id'' = Some (PStr []))"
proof -
  obtain p where p:
    "format_payload ''backend'' example_platform Map.empty [] outside_span_record = Inr p"
    using outside_span_payload by blast
  have "makeRecord_extra (record_factory None ''backend'' library_record) []
          = Inr outside_span_record"
    by (simp add: outside_span_record_def)
  with ids_without_active_span [OF p, of "''backend''" library_record "[]"]
  have p': "map_of p ''trace.id'' = Some (PStr ''0'') \<and> map_of p ''span.id'' = Some (PStr ''0'')"
    by simp
  obtain q where q:
    "format_payload ''backend'' example_platform Map.empty [] untraced_record = Inr q"
    using untraced_payload by blast
  have "map_of untraced_record ''otelTraceID'' = None"
    and "map_of untraced_record ''otelSpanID'' = None"
    by (simp_all add: untraced_record_def)
  with ids_without_active_span [OF q]
  have "map_of q ''trace.id'' = Some (PStr []) \<and> map_of q ''span.id'' = Some (PStr [])"
    by simp
  with p p' q show ?thesis by blast
qed

text \<open>
  Claim C8 says that \<open>service.name\<close> is the record's \<open>otelServiceName\<close> whenever the
  record carries one. The formatter reads it with
  \<open>getattr(record, "otelServiceName", "") or os.getenv("OTEL_SERVICE_NAME", ...)\<close>, so an
  override that is present but empty (or false in any other way) gives way to the static
  name: \<open>unnamed_record\<close> carries \<open>otelServiceName = ""\<close> and its payload says
  \<open>backend\<close>.
\<close>

theorem service_name_override_counterexample:
  "map_of unnamed_record ''otelServiceName'' = Some (PStr [])
   \<and> (case format_payload ''backend'' example_platform Map.empty [] unnamed_record of
         Inl e \<Rightarrow> None
       | Inr payload \<Rightarrow> map_of payload ''service.name'') = Some (PStr ''backend'')"
  by (simp add: format_eval unnamed_record_def)

text \<open>
  Claim C8, amended. The \<open>service.name\<close> field is the record's \<open>otelServiceName\<close> when
  the record carries one that is true as a condition (a non-empty string); when the
  attribute is missing or false (the empty string, \<open>None\<close>), it is the static process
  service name \<open>os.getenv("OTEL_SERVICE_NAME", default)\<close>.
\<close>

theorem service_name_resolution:
  assumes "format_payload d py env ra record = Inr payload"
  shows "(\<forall>v. map_of record ''otelServiceName'' = Some v \<and> truthy v
              \<longrightarrow> map_of payload ''service.name'' = Some v)
       \<and> ((\<forall>v. map_of record ''otelServiceName'' = Some v \<longrightarrow> \<not> truthy v)
              \<longrightarrow> map_of payload ''service.name''
                    = Some (PStr (getenv env ''OTEL_SERVICE_NAME'' d)))"
proof -
  from format_payload_Inr [OF assms] obtain fixed where
    fixed: "fixed_fields d py env ra record = Inr fixed" by blast
  have "map_of payload ''service.name'' = map_of fixed ''service.name''"
    by (rule payload_fixed_lookup [OF assms fixed]) (simp add: FIXED_KEYS_def)
  moreover from fixed_fields_Inr [OF fixed]
  have "map_of fixed ''service.name'' = Some (service_name_of d env record)"
    by auto
  ultimately have name: "map_of payload ''service.name'' = Some (service_name_of d env record)"
    by simp
  show ?thesis
    unfolding name
    by (cases "map_of record ''otelServiceName''")
       (auto simp: service_name_of_def py_or_def dict_get_def)
qed

text \<open>
  \<open>spoofing_record\<close> carries \<open>otelServiceName = "checkout"\<close>; \<open>untraced_record\<close>
  carries none, and the environment sets no \<open>OTEL_SERVICE_NAME\<close>.
\<close>

theorem service_name_resolution_witness:
  "(\<exists>p. format_payload ''backend'' example_platform Map.empty [] spoofing_record = Inr p
      \<and> map_of p ''service.name'' = Some (PStr ''checkout''))
   \<and> (\<exists>q. format_payload ''backend'' example_platform Map.empty [] untraced_record = Inr q
      \<and> map_of q ''service.name'' = Some (PStr ''backend''))"
proof -
  obtain p where p:
    "format_payload ''backend'' example_platform Map.empty [] spoofing_record = Inr p"
    using spoofing_payload by blast
  have "map_of spoofing_record ''otelServiceName'' = Some (PStr ''checkout'')"
    by (simp add: spoofing_record_def)
  with service_name_resolution [OF p]
  have p': "map_of p ''service.name'' = Some (PStr ''checkout'')"
    by simp
  obtain q where q:
    "format_payload ''backend'' example_platform Map.empty [] untraced_record = Inr q"
    using untraced_payload by blast
  have "map_of untraced_record ''otelServiceName'' = None"
    by (simp add: untraced_record_def)
  with service_name_resolution [OF q]
  have "map_of q ''service.name'' = Some (PStr ''backend'')"
    by (simp add: getenv_def)
  with p p' q show ?thesis by blast
qed


section \<open>Decimal numerals read back\<close>

lemma below_ten_cases:
  assumes "n < (10::nat)" 
  obtains "n = 0" | "n = 1" | "n = 2" | "n = 3" | "n = 4" | "n = 5" | "n = 6" | "n = 7" | "n = 8" | "n = 9"
  using assms by atomize_elim arith

lemma digit_char_props:
  assumes "n < 10"
  shows "is_digit (digit_char n)" and "digit_val (digit_char n) = n"
    and "digit_char n = CHR ''0'' \<longleftrightarrow> n = 0"
  using assms by (cases n rule: below_ten_cases; simp add: digit_char_def is_digit_def digit_val_def)+

lemma str_nat_digits: "list_all is_digit (str_nat n) \<and> str_nat n \<noteq> []"
proof (induction n rule: str_nat.induct)
  case (1 n)
  show ?case
  proof (cases "n < 10")
    case True
    then show ?thesis by (simp add: str_nat.simps [of n] digit_char_props)
  next
    case False
    with 1 show ?thesis by (simp add: str_nat.simps [of n] digit_char_props)
  qed
qed

lemma nat_of_digits_snoc: "nat_of_digits (ds @ [c]) = 10 * nat_of_digits ds + digit_val c"
  by (simp add: nat_of_digits_def)

lemma nat_of_digits_str_nat: "nat_of_digits (str_nat n) = n"
proof (induction n rule: str_nat.induct)
  case (1 n)
  show ?case
  proof (cases "n < 10")
    case True
    then show ?thesis by (simp add: str_nat.simps [of n] nat_of_digits_def digit_char_props)
  next
    case False
    with 1 show ?thesis
      by (simp add: str_nat.simps [of n] nat_of_digits_snoc digit_char_props)
  qed
qed

lemma str_nat_no_leading_zero: "0 < n \<Longrightarrow> hd (str_nat n) \<noteq> CHR ''0''"
proof (induction n rule: str_nat.induct)
  case (1 n)
  show ?case
  proof (cases "n < 10")
    case True
    with 1(2) show ?thesis by (simp add: str_nat.simps [of n] digit_char_props)
  next
    case False
    then have "0 < n div 10" by simp
    with 1(1) False have "hd (str_nat (n div 10)) \<noteq> CHR ''0''" by simp
    with False show ?thesis
      using str_nat_digits [of "n div 10"] by (simp add: str_nat.simps [of n])
  qed
qed

lemma str_nat_zero: "str_nat 0 = ''0''"
  by (simp add: str_nat.simps digit_char_def)

lemma takeWhile_digits_append:
  assumes "list_all is_digit ds" and "\<not> is_digit c"
  shows "takeWhile is_digit (ds @ c # r) = ds" and "dropWhile is_digit (ds @ c # r) = c # r"
  using assms by (induction ds) simp_all

lemma closer_not_digit:
  assumes "c = CHR '','' \<or> c = CHR ''}''"
  shows "\<not> is_digit c" and "c \<noteq> CHR ''.''" and "c \<noteq> CHR ''e''" and "c \<noteq> CHR ''E''"
    and "\<not> json_ws c" and "c \<noteq> CHR ''0''" and "c \<noteq> CHR ''-''"
  using assms by (auto simp: is_digit_def json_ws_def)

lemma digit_not_minus: "is_digit c \<Longrightarrow> c \<noteq> CHR ''-''"
  by (auto simp: is_digit_def)

lemma scan_integer_str_nat:
  assumes "\<not> is_digit c"
  shows "scan_integer (str_nat n @ c # r) = (str_nat n, c # r)"
proof (cases "n = 0")
  case True
  then show ?thesis by (simp add: str_nat_zero scan_integer_def)
next
  case False
  obtain d ds where ds: "str_nat n = d # ds"
    using str_nat_digits [of n] by (cases "str_nat n") auto
  from False have "hd (str_nat n) \<noteq> CHR ''0''"
    by (simp add: str_nat_no_leading_zero)
  with ds have "d \<noteq> CHR ''0''" by simp
  moreover have "takeWhile is_digit (str_nat n @ c # r) = str_nat n"
    and "dropWhile is_digit (str_nat n @ c # r) = c # r"
    using takeWhile_digits_append [OF _ assms] str_nat_digits [of n] by simp_all
  ultimately show ?thesis
    by (simp add: scan_integer_def ds)
qed

lemma scan_sign_str_nat: "scan_sign (str_nat n @ rest) = ([], str_nat n @ rest)"
proof -
  obtain d ds where ds: "str_nat n = d # ds"
    using str_nat_digits [of n] by (cases "str_nat n") auto
  with str_nat_digits [of n] have "is_digit d" by simp
  then have "d \<noteq> CHR ''-''" by (rule digit_not_minus)
  then show ?thesis by (simp add: scan_sign_def ds)
qed

lemma scan_number_str_int:
  assumes "c = CHR '','' \<or> c = CHR ''}''"
    and "digits_fit py (length (str_nat (nat \<bar>i\<bar>)))"
  shows "scan_number py (str_int i @ c # r) = Some (PInt i, c # r)"
proof -
  note closer = closer_not_digit [OF assms(1)]
  have tail: "scan_fraction (c # r) = ([], c # r)" "scan_exponent (c # r) = ([], c # r)"
    using closer by (simp_all add: scan_fraction_def scan_exponent_def)
  show ?thesis
  proof (cases "i < 0")
    case True
    then have "scan_sign (str_int i @ c # r) = (''-'', str_nat (nat (- i)) @ c # r)"
      by (simp add: str_int_def scan_sign_def)
    moreover from True assms(2) have "digits_fit py (length (str_nat (nat (- i))))"
      by (simp add: abs_if)
    ultimately show ?thesis
      using True str_nat_digits [of "nat (- i)"]
      by (simp add: scan_number_def scan_integer_str_nat [OF closer(1)] tail
          nat_of_digits_str_nat)
  next
    case False
    then have "scan_sign (str_int i @ c # r) = ([], str_nat (nat i) @ c # r)"
      by (simp add: str_int_def scan_sign_str_nat)
    moreover from False assms(2) have "digits_fit py (length (str_nat (nat i)))"
      by (simp add: abs_if)
    ultimately show ?thesis
      using False str_nat_digits [of "nat i"]
      by (simp add: scan_number_def scan_integer_str_nat [OF closer(1)] tail
          nat_of_digits_str_nat)
  qed
qed

lemma str_int_head:
  "\<exists>d ds. str_int i = d # ds \<and> (d = CHR ''-'' \<or> is_digit d)"
proof -
  obtain d ds where "str_nat (nat \<bar>i\<bar>) = d # ds" and "is_digit d"
    using str_nat_digits [of "nat \<bar>i\<bar>"] by (cases "str_nat (nat \<bar>i\<bar>)") auto
  then show ?thesis
    by (cases "i < 0") (auto simp: str_int_def abs_if)
qed

lemma scan_value_str_int:
  assumes "c = CHR '','' \<or> c = CHR ''}''"
    and "digits_fit py (length (str_nat (nat \<bar>i\<bar>)))"
  shows "scan_value py (str_int i @ c # r) = Some (PInt i, c # r)"
proof -
  obtain d ds where ds: "str_int i = d # ds" and d: "d = CHR ''-'' \<or> is_digit d"
    using str_int_head by blast
  from d have "d \<noteq> CHR 0x22" "d \<noteq> CHR ''n''" "d \<noteq> CHR ''t''" "d \<noteq> CHR ''f''"
    by (auto simp: is_digit_def)
  then have "scan_value py (str_int i @ c # r) = scan_number py (str_int i @ c # r)"
    by (simp add: scan_value_def ds)
  then show ?thesis by (simp add: scan_number_str_int [OF assms])
qed

section \<open>Strings read back\<close>

lemma below_sixteen_cases:
  assumes "n < (16::nat)"
  obtains "n = 0" | "n = 1" | "n = 2" | "n = 3" | "n = 4" | "n = 5" | "n = 6" | "n = 7"
    | "n = 8" | "n = 9" | "n = 10" | "n = 11" | "n = 12" | "n = 13" | "n = 14" | "n = 15"
  using assms by atomize_elim arith

lemma hex_val_hex_char: "n < 16 \<Longrightarrow> hex_val (hex_char n) = Some n"
  by (cases n rule: below_sixteen_cases; simp add: hex_char_def hex_val_def)

lemma hex_val_zero: "hex_val (CHR ''0'') = Some 0"
  by (simp add: hex_val_def)

lemma decode_hex4_escape:
  "decode_hex4 [CHR ''0'', CHR ''0'', hex_char (of_char c div 16), hex_char (of_char c mod 16)]
     = Some c"
proof -
  have "(of_char c :: nat) < 256" by (rule nat_of_char_less_256)
  then have "(of_char c :: nat) div 16 < 16" by arith
  moreover have "(of_char c :: nat) mod 16 < 16" by simp
  ultimately show ?thesis
    using nat_of_char_less_256 [of c]
    by (simp add: hex_val_hex_char hex_val_zero)
qed

lemma scan_string_escape_char:
  "scan_string (json_escape_char c @ rest) =
     (case scan_string rest of None \<Rightarrow> None | Some (s, r) \<Rightarrow> Some (c # s, r))"
proof -
  consider "c = CHR 0x22" | "c = CHR 0x5C" | "c = CHR 0x0A" | "c = CHR 0x0D" | "c = CHR 0x09"
    | "c = CHR 0x08" | "c = CHR 0x0C"
    | "c \<noteq> CHR 0x22" "c \<noteq> CHR 0x5C" "32 \<le> (of_char c :: nat)" "(of_char c :: nat) \<le> 126"
    | "c \<noteq> CHR 0x22" "c \<noteq> CHR 0x5C" "c \<noteq> CHR 0x0A" "c \<noteq> CHR 0x0D" "c \<noteq> CHR 0x09"
      "c \<noteq> CHR 0x08" "c \<noteq> CHR 0x0C" "\<not> (32 \<le> (of_char c :: nat) \<and> (of_char c :: nat) \<le> 126)"
    by blast
  then show ?thesis
  proof cases
    case 8
    then have "json_escape_char c = [c]"
      by (auto simp: json_escape_char_def)
    with 8 show ?thesis
      by (simp add: scan_string.simps(2) [of c])
  next
    case 9
    then have "json_escape_char c = [CHR 0x5C, CHR ''u'', CHR ''0'', CHR ''0'',
            hex_char (of_char c div 16), hex_char (of_char c mod 16)]"
      by (simp add: json_escape_char_def)
    then show ?thesis
      by (simp add: scan_string.simps(2) [of "CHR 0x5C"] decode_hex4_escape
          del: decode_hex4.simps)
  qed (auto simp add: json_escape_char_def scan_string.simps(2) [of "CHR 0x5C"] unescape_def
        split: option.splits)
qed

lemma scan_string_escaped:
  "scan_string (concat (map json_escape_char s) @ CHR 0x22 # rest) = Some (s, rest)"
proof (induction s)
  case Nil
  show ?case by (simp add: scan_string.simps(2) [of "CHR 0x22"])
next
  case (Cons c s)
  then show ?case by (simp add: scan_string_escape_char)
qed

lemma scan_value_json_string:
  "scan_value py (json_string s @ rest) = Some (PStr s, rest)"
  by (simp add: scan_value_def json_string_def scan_string_escaped)

section \<open>Values and members read back\<close>

lemma skip_ws_id: "s \<noteq> [] \<Longrightarrow> \<not> json_ws (hd s) \<Longrightarrow> skip_ws s = s"
  by (cases s) (simp_all add: skip_ws_def)

lemma skip_ws_space: "skip_ws (CHR '' '' # s) = skip_ws s"
  by (simp add: skip_ws_def json_ws_def)

lemma scan_number_ws: "json_ws c \<Longrightarrow> scan_number py (c # cs) = None"
  by (auto simp: json_ws_def scan_number_def scan_sign_def scan_integer_def is_digit_def)

lemma scan_value_not_ws:
  assumes "scan_value py s = Some (v, rest)"
  shows "s \<noteq> [] \<and> \<not> json_ws (hd s)"
proof (cases s)
  case Nil
  with assms show ?thesis by (simp add: scan_value_def)
next
  case (Cons c cs)
  have "scan_value py (c # cs) = None" if "json_ws c"
    using that scan_number_ws [OF that, of py cs] by (auto simp: scan_value_def json_ws_def)
  with assms Cons show ?thesis by auto
qed

lemma scan_value_json_value:
  assumes "json_safe py v" and "c = CHR '','' \<or> c = CHR ''}''"
  shows "\<exists>txt v'. json_value py v = Inr txt
           \<and> scan_value py (txt @ c # r) = Some (v', c # r) \<and> reads_as v' v"
proof (cases v)
  case PNone
  then show ?thesis by (simp add: scan_value_def)
next
  case (PBool b)
  then show ?thesis by (simp add: scan_value_def)
next
  case (PInt i)
  with assms(1) have fit: "digits_fit py (length (str_nat (nat \<bar>i\<bar>)))" by simp
  with PInt show ?thesis
    by (simp add: int_str_def scan_value_str_int [OF assms(2) fit])
next
  case (PFloat x)
  with assms(1) have "float_token py (float_repr py x)" by simp
  with assms(2) have "\<exists>y. scan_value py (float_repr py x @ c # r) = Some (PFloat y, c # r)"
    unfolding float_token_def by blast
  with PFloat show ?thesis by auto
next
  case (PStr s)
  then show ?thesis by (simp add: scan_value_json_string)
next
  case (PObj t s j)
  with assms show ?thesis by simp
qed

lemma scan_member:
  assumes "json_safe py v" and "c = CHR '','' \<or> c = CHR ''}''"
  shows "\<exists>txt v'. json_value py v = Inr txt \<and> reads_as v' v \<and>
     scan_members py (Suc n) (json_string k @ '': '' @ txt @ c # r) =
       (if c = CHR ''}'' then Some ([(k, v')], r)
        else (case scan_members py n (skip_ws r) of
                None \<Rightarrow> None
              | Some (pairs, rest) \<Rightarrow> Some ((k, v') # pairs, rest)))"
proof -
  from scan_value_json_value [OF assms] obtain body v' where
    enc: "json_value py v = Inr body"
    and scan: "scan_value py (body @ c # r) = Some (v', c # r)"
    and same: "reads_as v' v"
    by blast
  from scan_value_not_ws [OF scan] have value_start: "skip_ws (body @ c # r) = body @ c # r"
    by (intro skip_ws_id) simp_all
  have colon: "skip_ws ('': '' @ body @ c # r) = CHR '':'' # CHR '' '' # body @ c # r"
    by (simp add: skip_ws_def json_ws_def)
  have closer: "skip_ws (c # r) = c # r"
    using assms(2) by (auto simp: skip_ws_def json_ws_def)
  have key: "scan_string (concat (map json_escape_char k) @ CHR 0x22 # '': '' @ body @ c # r)
               = Some (k, '': '' @ body @ c # r)"
    by (rule scan_string_escaped)
  have "scan_members py (Suc n) (json_string k @ '': '' @ body @ c # r) =
       (if c = CHR ''}'' then Some ([(k, v')], r)
        else (case scan_members py n (skip_ws r) of
                None \<Rightarrow> None
              | Some (pairs, rest) \<Rightarrow> Some ((k, v') # pairs, rest)))"
    using assms(2) key
    by (auto simp add: json_string_def colon [simplified] skip_ws_space value_start scan closer)
  with enc same show ?thesis by blast
qed

lemma join_Cons_nonempty:
  "ys \<noteq> [] \<Longrightarrow> join sep (x # ys) = x @ sep @ join sep ys"
  by (cases ys) simp_all

lemma scan_members_json_items:
  assumes "list_all (json_safe py) (map snd p)" and "p \<noteq> []" and "length p \<le> n"
  shows "\<exists>bodies first parsed. json_items py p = Inr bodies
           \<and> length bodies = length p
           \<and> join '', '' bodies = CHR 0x22 # first
           \<and> scan_members py n (join '', '' bodies @ CHR ''}'' # rest) = Some (parsed, rest)
           \<and> same_entries parsed p"
  using assms
proof (induction p arbitrary: n)
  case Nil
  then show ?case by simp
next
  case (Cons kv p)
  obtain k v where kv: "kv = (k, v)" by (cases kv)
  from Cons.prems(3) obtain m where n: "n = Suc m" and m: "length p \<le> m"
    by (cases n) auto
  from Cons.prems(1) have safe: "json_safe py v" and safe_rest: "list_all (json_safe py) (map snd p)"
    by (simp_all add: kv)
  show ?case
  proof (cases "p = []")
    case True
    from scan_member [OF safe, of "CHR ''}''" m k rest] obtain body v' where
      enc: "json_value py v = Inr body" and same: "reads_as v' v"
      and scan: "scan_members py (Suc m) (json_string k @ '': '' @ body @ CHR ''}'' # rest)
                   = Some ([(k, v')], rest)"
      by auto
    have "json_items py (kv # p) = Inr [json_string k @ '': '' @ body]"
      using enc True by (simp add: kv)
    moreover have "join '', '' [json_string k @ '': '' @ body]
                     = CHR 0x22 # (concat (map json_escape_char k) @ [CHR 0x22] @ '': '' @ body)"
      by (simp add: json_string_def)
    moreover have "same_entries [(k, v')] (kv # p)"
      using same True by (simp add: same_entries_def kv)
    ultimately show ?thesis
      using scan n True by (simp del: scan_members.simps)
  next
    case False
    from Cons.IH [OF safe_rest False m] obtain bodies first parsed where
      items: "json_items py p = Inr bodies" and len: "length bodies = length p"
      and first: "join '', '' bodies = CHR 0x22 # first"
      and scan_rest: "scan_members py m (join '', '' bodies @ CHR ''}'' # rest)
                        = Some (parsed, rest)"
      and same_rest: "same_entries parsed p"
      by blast
    let ?r = "CHR '' '' # join '', '' bodies @ CHR ''}'' # rest"
    from scan_member [OF safe, of "CHR '',''" m k ?r] obtain body v' where
      enc: "json_value py v = Inr body" and same: "reads_as v' v"
      and scan: "scan_members py (Suc m) (json_string k @ '': '' @ body @ CHR '','' # ?r)
                   = (case scan_members py m (skip_ws ?r) of
                        None \<Rightarrow> None
                      | Some (pairs, rest) \<Rightarrow> Some ((k, v') # pairs, rest))"
      by auto
    have next_key: "skip_ws ?r = join '', '' bodies @ CHR ''}'' # rest"
      by (simp add: skip_ws_space first skip_ws_def json_ws_def)
    from len False have nonempty: "bodies \<noteq> []" by auto
    have "json_items py (kv # p) = Inr ((json_string k @ '': '' @ body) # bodies)"
      using enc items by (simp add: kv)
    moreover have whole: "join '', '' ((json_string k @ '': '' @ body) # bodies)
                     = json_string k @ '': '' @ body @ '', '' @ join '', '' bodies"
      by (simp add: join_Cons_nonempty [OF nonempty])
    moreover have "join '', '' ((json_string k @ '': '' @ body) # bodies)
                     = CHR 0x22 # (concat (map json_escape_char k) @ [CHR 0x22] @ '': '' @ body
                                    @ '', '' @ join '', '' bodies)"
      unfolding whole by (simp add: json_string_def)
    moreover have "scan_members py n
                     (join '', '' ((json_string k @ '': '' @ body) # bodies) @ CHR ''}'' # rest)
                     = Some ((k, v') # parsed, rest)"
      unfolding whole n using scan by (simp add: next_key scan_rest del: scan_members.simps)
    moreover have "same_entries ((k, v') # parsed) (kv # p)"
      using same same_rest by (simp add: same_entries_def kv)
    ultimately show ?thesis
      using len by (metis length_Cons)
  qed
qed

lemma same_entries_keys: "same_entries parsed d \<Longrightarrow> map fst parsed = map fst d"
  unfolding same_entries_def by (induction parsed d rule: list_all2_induct) simp_all

lemma foldl_dict_set_distinct:
  "distinct (map fst (d @ p)) \<Longrightarrow> foldl (\<lambda>d (k, v). dict_set d k v) d p = d @ p"
proof (induction p arbitrary: d)
  case Nil
  then show ?case by simp
next
  case (Cons kv p)
  obtain k v where kv: "kv = (k, v)" by (cases kv)
  from Cons.prems have fresh: "k \<notin> fst ` set d" by (auto simp: kv)
  from Cons.prems have "distinct (map fst ((d @ [(k, v)]) @ p))" by (simp add: kv)
  from Cons.IH [OF this] show ?case
    by (simp add: kv dict_set_fresh [OF fresh])
qed

lemma length_join: "list_all (\<lambda>t. t \<noteq> []) ts \<Longrightarrow> length ts \<le> length (join sep ts)"
proof (induction sep ts rule: join.induct)
  case (2 sep x)
  then show ?case by (cases x) simp_all
next
  case (3 sep x y ys)
  then have "x \<noteq> []" by simp
  then have "1 \<le> length x" by (cases x) simp_all
  with 3 show ?case by simp
qed simp

lemma json_items_nonempty:
  "json_items py p = Inr bodies \<Longrightarrow> list_all (\<lambda>t. t \<noteq> []) bodies"
proof (induction p arbitrary: bodies)
  case Nil
  then show ?case by simp
next
  case (Cons kv p)
  obtain k v where kv: "kv = (k, v)" by (cases kv)
  from Cons.prems obtain body rest where "json_items py p = Inr rest"
    and "bodies = (json_string k @ '': '' @ body) # rest"
    by (auto simp: kv split: sum.splits)
  with Cons.IH [of rest] show ?case by (simp add: json_string_def)
qed

lemma json_loads_json_dumps:
  assumes "list_all (json_safe py) (map snd p)" and "distinct (map fst p)"
  shows "\<exists>s parsed. json_dumps py p = Inr s \<and> json_loads py s = Some parsed
           \<and> same_entries parsed p"
proof (cases "p = []")
  case True
  then show ?thesis
    by (simp add: json_dumps_def json_loads_def skip_ws_def json_ws_def same_entries_def)
next
  case False
  from scan_members_json_items [OF assms(1) False, of "Suc (length p)" "[]"]
  obtain bodies first parsed0 where
    items: "json_items py p = Inr bodies" and len: "length bodies = length p"
    and first: "join '', '' bodies = CHR 0x22 # first"
    by auto
  let ?s = "''{'' @ join '', '' bodies @ ''}''"
  have "length p \<le> length (join '', '' bodies)"
    using length_join [OF json_items_nonempty [OF items], of "'', ''"] len by simp
  then have fuel: "length p \<le> length ?s" by simp
  from scan_members_json_items [OF assms(1) False fuel, of "[]"] items
  obtain parsed where
    scan: "scan_members py (length ?s) (join '', '' bodies @ ''}'') = Some (parsed, [])"
    and same: "same_entries parsed p"
    by auto
  have keys: "map fst parsed = map fst p"
    by (rule same_entries_keys [OF same])
  with assms(2) have "distinct (map fst ([] @ parsed))" by simp
  from foldl_dict_set_distinct [OF this]
  have built: "foldl (\<lambda>d (k, v). dict_set d k v) [] parsed = parsed" by simp
  have dumps: "json_dumps py p = Inr ?s"
    by (simp add: json_dumps_def items)
  have "skip_ws ?s = ?s"
    by (simp add: skip_ws_def json_ws_def)
  moreover have "skip_ws (join '', '' bodies @ ''}'') = join '', '' bodies @ ''}''"
    by (simp add: first skip_ws_def json_ws_def)
  ultimately have "json_loads py ?s = Some parsed"
    using scan built first
    by (simp add: json_loads_def skip_ws_def del: scan_members.simps)
  with dumps same show ?thesis by blast
qed


section \<open>The formatter's output read back\<close>

lemma distinct_FIXED_KEYS: "distinct FIXED_KEYS"
  by (simp add: FIXED_KEYS_def)

lemma payload_keys:
  assumes "format_payload d py env ra record = Inr payload"
  shows "distinct (map fst payload)"
    and "fst ` set payload = set FIXED_KEYS \<union>
           {k \<in> fst ` set record. \<not> startswith k ''otel'' \<and> k \<notin> set DENYLIST}"
proof -
  from format_payload_Inr [OF assms] obtain fixed where
    fixed: "fixed_fields d py env ra record = Inr fixed"
    and payload: "payload = add_extras fixed record"
    by blast
  have "distinct (map fst fixed)"
    by (simp add: fixed_fields_keys [OF fixed] distinct_FIXED_KEYS)
  then show "distinct (map fst payload)"
    unfolding payload by (rule distinct_add_extras)
  show "fst ` set payload = set FIXED_KEYS \<union>
           {k \<in> fst ` set record. \<not> startswith k ''otel'' \<and> k \<notin> set DENYLIST}"
    unfolding payload keys_add_extras by (simp add: fixed_keys_of_payload [OF fixed])
qed

lemma example_float_token: "float_token example_platform (float_repr example_platform x)"
  unfolding float_token_def
  by (auto simp: example_platform_def scan_value_def scan_number_def scan_sign_def
      scan_integer_def scan_fraction_def scan_exponent_def is_digit_def)

text \<open>
  Claim C2. A line of the formatter parses back to a mapping whose fixed-field keys are
  exactly the twelve defined keys; that part of the claim holds. Its extension keys are
  the keys, neither fixed-field names nor reserved (the prefix \<open>otel\<close>, the deny
  tuple), of all the attributes of the record: those the logging library set (\<open>made\<close>)
  and those the caller supplied through \<open>extra\<close>. The deny tuple names nineteen of the
  twenty attributes that \<open>LogRecord.__init__\<close> sets and leaves out \<open>name\<close>. So
  every line has the extension key \<open>name\<close>, which no caller supplied:
  \<open>Logger.makeRecord\<close> refuses an \<open>extra\<close> with a key the record already has. The
  extension keys are therefore never exactly the caller-supplied ones. The round trip
  is stated for payloads whose values are \<open>None\<close>, booleans, integers within the digit
  limit, strings and floats with a \<open>repr\<close> that the decoder reads as a float; for
  these the line parses, with the same keys in the same order and the same values (up
  to what \<open>float(repr(x))\<close> is).
\<close>

theorem round_trip_extension_keys_include_name:
  assumes "makeRecord_extra made extra = Inr record"
    and "dict_contains made ''name''"
    and "format_payload d py env ra record = Inr payload"
    and "list_all (json_safe py) (map snd payload)"
  shows "\<exists>line parsed. format d py env ra record = Inr line
           \<and> json_loads py line = Some parsed
           \<and> same_entries parsed payload
           \<and> {k \<in> fst ` set parsed. k \<in> set FIXED_KEYS} = set FIXED_KEYS
           \<and> {k \<in> fst ` set parsed. k \<notin> set FIXED_KEYS} =
               {k \<in> fst ` set made \<union> fst ` set extra.
                  k \<notin> set FIXED_KEYS \<and> \<not> startswith k ''otel'' \<and> k \<notin> set DENYLIST}
           \<and> ''name'' \<in> {k \<in> fst ` set parsed. k \<notin> set FIXED_KEYS}
           \<and> ''name'' \<notin> fst ` set extra"
proof -
  note keys = payload_keys [OF assms(3)]
  from json_loads_json_dumps [OF assms(4) keys(1)] obtain line parsed where
    dumps: "json_dumps py payload = Inr line"
    and loads: "json_loads py line = Some parsed"
    and same: "same_entries parsed payload"
    by blast
  have attrs: "fst ` set record = fst ` set made \<union> fst ` set extra"
    by (rule makeRecord_extra_keys [OF assms(1)])
  have "set (map fst parsed) = set (map fst payload)"
    by (simp add: same_entries_keys [OF same])
  then have parsed_keys: "fst ` set parsed = set FIXED_KEYS \<union>
           {k \<in> fst ` set made \<union> fst ` set extra.
              \<not> startswith k ''otel'' \<and> k \<notin> set DENYLIST}"
    using keys(2) by (simp add: attrs)
  have line: "format d py env ra record = Inr line"
    by (simp add: format_def assms(3) dumps)
  have fixed_part: "{k \<in> fst ` set parsed. k \<in> set FIXED_KEYS} = set FIXED_KEYS"
    unfolding parsed_keys by blast
  have extension_part: "{k \<in> fst ` set parsed. k \<notin> set FIXED_KEYS} =
               {k \<in> fst ` set made \<union> fst ` set extra.
                  k \<notin> set FIXED_KEYS \<and> \<not> startswith k ''otel'' \<and> k \<notin> set DENYLIST}"
    unfolding parsed_keys by blast
  have "''name'' \<in> fst ` set made"
    using assms(2) by (simp add: dict_contains_def)
  moreover have "''name'' \<notin> set FIXED_KEYS" "\<not> startswith ''name'' ''otel''"
    "''name'' \<notin> set DENYLIST"
    by (simp_all add: FIXED_KEYS_def startswith_def DENYLIST_def)
  ultimately have leak: "''name'' \<in> {k \<in> fst ` set parsed. k \<notin> set FIXED_KEYS}"
    unfolding extension_part by simp
  have not_supplied: "''name'' \<notin> fst ` set extra"
    using makeRecord_extra_keeps [OF assms(1,2)] by simp
  from line loads same fixed_part extension_part leak not_supplied
  show ?thesis by blast
qed

text \<open>
  The backend's line for \<open>example_record\<close>, the record of
  \<open>logger.info("item fetched", extra={"key": "alpha", "latency_ms": 7})\<close>: it parses
  back to the twelve fixed keys followed by \<open>name\<close>, \<open>key\<close> and \<open>latency_ms\<close>,
  where the caller supplied \<open>key\<close> and \<open>latency_ms\<close> only.
\<close>

theorem round_trip_extension_keys_include_name_witness:
  "\<exists>line parsed.
     backend_format example_platform Map.empty [] example_record = Inr line
     \<and> json_loads example_platform line = Some parsed
     \<and> map fst parsed = FIXED_KEYS @ [''name'', ''key'', ''latency_ms'']
     \<and> map fst example_extra = [''key'', ''latency_ms'']
     \<and> ''name'' \<notin> fst ` set example_extra"
proof -
  obtain payload where run:
    "format_payload ''backend'' example_platform Map.empty [] example_record = Inr payload"
    and keys: "map fst payload = FIXED_KEYS @ [''name'', ''key'', ''latency_ms'']"
    and safe: "list_all (json_safe example_platform) (map snd payload)"
    by (simp add: format_eval example_record_def FIXED_KEYS_def)
  have named: "dict_contains
      (record_factory (Some (''abc123'', ''def456'', True)) ''backend'' library_record)
      ''name''"
    by (simp add: record_factory_def library_record_def dict_contains_def Let_def
        keys_dict_set)
  from round_trip_extension_keys_include_name [OF example_record_made named run safe]
  obtain line parsed where
    "format ''backend'' example_platform Map.empty [] example_record = Inr line"
    and "json_loads example_platform line = Some parsed"
    and "same_entries parsed payload"
    and "''name'' \<notin> fst ` set example_extra"
    by blast
  with keys show ?thesis
    by (auto simp: backend_format_def example_extra_def dest: same_entries_keys)
qed

end
